theory Spec2Isabelle
  imports Complex_Main
begin

text \<open>
  A model of the horse racing simulation: the \<open>Race\<close> aggregate with its running
  horses and domain events, the event bus, the command that drives the race loop, and
  the validated value objects a horse is made of. State is passed explicitly: an
  operation takes the state of its object and returns the result of the call with the
  new state. A \<open>Result\<close> is a sum, \<open>Inl\<close> for \<open>Err\<close> and \<open>Inr\<close> for \<open>Ok\<close>.
\<close>

section \<open>Strings, identifiers and the sources of randomness\<close>

text \<open>
  A JavaScript string is a sequence of UTF-16 code units; \<open>length\<close> counts code units.
  The literals of the source are ASCII and are written through \<open>js\<close>.
\<close>

type_synonym jsstring = "nat list"

definition js :: "string \<Rightarrow> jsstring" where
  "js s = map of_char s"

text \<open>
  \<open>Math.random()\<close> and \<open>crypto.randomUUID()\<close> are read from the environment. Each is
  modelled as the sequence of values the successive calls return: element \<open>0\<close> is the
  next value, and a call leaves the shifted sequence behind.
\<close>

type_synonym random = "nat \<Rightarrow> real"

type_synonym uuids = "nat \<Rightarrow> jsstring"

definition shift :: "(nat \<Rightarrow> 'a) \<Rightarrow> (nat \<Rightarrow> 'a)" where
  "shift f = (\<lambda>n. f (Suc n))"

section \<open>Numbers\<close>

text \<open>
  A JavaScript number is an IEEE 754 double; a finite one is modelled as the real number
  it denotes. An arithmetic operation returns the double nearest to the exact result,
  a tie going to the even significand (\<open>round_double\<close>): the significand has 53 bits,
  and the exponent of the unit in the last place is at least \<open>-1074\<close>. Results of
  magnitude \<open>2^1024\<close> and more (\<open>Infinity\<close>) are outside the model. The doubles are the
  reals that rounding leaves as they are.
\<close>

definition pow2 :: "int \<Rightarrow> real" where
  "pow2 k = (if 0 \<le> k then 2 ^ nat k else 1 / 2 ^ nat (- k))"

definition round_half_even :: "real \<Rightarrow> int" where
  "round_half_even q =
     (let f = \<lfloor>q\<rfloor>; d = q - of_int f
      in if d < 1 / 2 then f else if 1 / 2 < d then f + 1 else if even f then f else f + 1)"

definition double_exponent :: "real \<Rightarrow> int" where
  "double_exponent x = max \<lfloor>log 2 \<bar>x\<bar>\<rfloor> (- 1022)"

definition round_double :: "real \<Rightarrow> real" where
  "round_double x =
     (if x = 0 then 0
      else of_int (round_half_even (x / pow2 (double_exponent x - 52)))
             * pow2 (double_exponent x - 52))"

definition is_double :: "real \<Rightarrow> bool" where
  "is_double x \<longleftrightarrow> round_double x = x"

section \<open>Errors (domain/errors/RaceErrors.ts, domain/errors/ValidationError.ts)\<close>

datatype RaceError =
    RaceAlreadyFinishedError jsstring
  | RaceNotStartedError jsstring
  | HorseAlreadyFinishedError jsstring
  | RaceNotFoundError int
  | NoHorsesError

record ValidationError =
  field :: string
  reason :: string

section \<open>Horse and RunningHorse\<close>

text \<open>
  The validated \<open>Horse\<close> value object: the values of its \<open>HorseId\<close>, \<open>HorseName\<close>,
  \<open>HorseColor\<close> and \<open>Condition\<close> components. Conditions, positions and distances are
  integers, as \<open>Condition.create\<close> and \<open>Distance.create\<close> admit no other number.
\<close>

record Horse =
  horse_id :: jsstring
  horse_name :: jsstring
  horse_color :: jsstring
  horse_condition :: int

record RunningHorse =
  rh_id :: jsstring
  rh_horse :: Horse
  position :: int
  isFinished :: bool

definition name :: "RunningHorse \<Rightarrow> jsstring" where
  "name h = horse_name (rh_horse h)"

definition condition :: "RunningHorse \<Rightarrow> int" where
  "condition h = horse_condition (rh_horse h)"

text \<open>
  \<open>RunningHorse.create(horse, id?)\<close>: the id is the one supplied, or else the next
  value of \<open>crypto.randomUUID()\<close> (always a well-formed UUID, so \<open>createRunningHorseId\<close>
  accepts it).
\<close>

definition RunningHorse_create :: "Horse \<Rightarrow> jsstring option \<Rightarrow> uuids \<Rightarrow> RunningHorse \<times> uuids" where
  "RunningHorse_create h rid u =
     (case rid of
        Some i \<Rightarrow> (\<lparr>rh_id = i, rh_horse = h, position = 0, isFinished = False\<rparr>, u)
      | None \<Rightarrow> (\<lparr>rh_id = u 0, rh_horse = h, position = 0, isFinished = False\<rparr>, shift u))"

definition RunningHorse_reconstitute :: "jsstring \<Rightarrow> Horse \<Rightarrow> int \<Rightarrow> bool \<Rightarrow> RunningHorse" where
  "RunningHorse_reconstitute i h p f = \<lparr>rh_id = i, rh_horse = h, position = p, isFinished = f\<rparr>"

text \<open>
  \<open>RunningHorse.run(raceLength)\<close>. The movement is \<open>Math.floor(Math.random() * condition) + 1\<close>:
  the product of the two doubles is rounded, and its floor and the sums that follow are
  exact (integers far below \<open>2^53\<close>). The draw is consumed only when the horse has not
  finished.
\<close>

definition movement_of :: "real \<Rightarrow> int \<Rightarrow> int" where
  "movement_of r c = \<lfloor>round_double (r * of_int c)\<rfloor> + 1"

definition run :: "int \<Rightarrow> random \<Rightarrow> RunningHorse \<Rightarrow> (RaceError + int) \<times> RunningHorse \<times> random" where
  "run raceLength rnd h =
     (if isFinished h then (Inl (HorseAlreadyFinishedError (rh_id h)), h, rnd)
      else
        let movement = movement_of (rnd 0) (condition h);
            newPosition = position h + movement
        in (Inr movement,
            (if newPosition \<ge> raceLength
             then h\<lparr>position := raceLength, isFinished := True\<rparr>
             else h\<lparr>position := newPosition\<rparr>),
            shift rnd))"

section \<open>Domain events (domain/events/RaceEvents.ts)\<close>

record HorsePosition =
  hp_horseId :: jsstring
  hp_horseName :: jsstring
  hp_position :: int
  hp_isFinished :: bool

record RaceResult =
  rr_place :: nat
  rr_horseId :: jsstring
  rr_horseName :: jsstring
  rr_finishPosition :: int

text \<open>
  The first argument of every event is the aggregate id. The \<open>eventId\<close> and \<open>occurredAt\<close>
  stamps of \<open>BaseDomainEvent\<close> come from the environment and are left out.
\<close>

datatype DomainEvent =
    RaceStarted jsstring nat int
  | TurnCompleted jsstring nat "HorsePosition list"
  | HorseFinished jsstring jsstring jsstring int nat
  | RaceFinished jsstring "RaceResult list"

fun eventType :: "DomainEvent \<Rightarrow> string" where
  "eventType (RaceStarted _ _ _) = ''RaceStarted''"
| "eventType (TurnCompleted _ _ _) = ''TurnCompleted''"
| "eventType (HorseFinished _ _ _ _ _) = ''HorseFinished''"
| "eventType (RaceFinished _ _) = ''RaceFinished''"

section \<open>The Race aggregate (domain/entities/Race.ts, AggregateRoot.ts)\<close>

text \<open>
  \<open>_horses\<close> and \<open>_results\<close> are arrays of references to mutable \<open>RunningHorse\<close>
  objects. A reference is an address; \<open>store\<close> gives the object at each address.
\<close>

record Race =
  race_id :: jsstring
  horses :: "nat list"
  results :: "nat list"
  isStarted :: bool
  turnCount :: nat
  distance :: int
  domainEvents :: "DomainEvent list"
  store :: "nat \<Rightarrow> RunningHorse"

definition Race_isFinished :: "Race \<Rightarrow> bool" where
  "Race_isFinished r \<longleftrightarrow> length (results r) = length (horses r)"

definition raceLength :: "Race \<Rightarrow> int" where
  "raceLength r = distance r"

definition addDomainEvent :: "DomainEvent \<Rightarrow> Race \<Rightarrow> Race" where
  "addDomainEvent e r = r\<lparr>domainEvents := domainEvents r @ [e]\<rparr>"


text \<open>
  \<open>horses.map((horse) => RunningHorse.create(horse))\<close>: one fresh object per entry,
  each with the next UUID.
\<close>

fun create_all :: "Horse list \<Rightarrow> uuids \<Rightarrow> RunningHorse list \<times> uuids" where
  "create_all [] u = ([], u)"
| "create_all (h # hs) u =
     (let (rh, u1) = RunningHorse_create h None u;
          (rhs, u2) = create_all hs u1
      in (rh # rhs, u2))"

text \<open>
  \<open>Race.create(horses, distance, id?)\<close>. The new objects are put at the addresses
  \<open>0, 1, \<dots>\<close> in lineup order; no other address is referenced by the race.
\<close>

definition Race_create :: "Horse list \<Rightarrow> int \<Rightarrow> jsstring option \<Rightarrow> uuids \<Rightarrow> RaceError + Race" where
  "Race_create hs d rid u =
     (if length hs = 0 then Inl NoHorsesError
      else
        let (raceId, u1) = (case rid of Some i \<Rightarrow> (i, u) | None \<Rightarrow> (u 0, shift u));
            (runningHorses, u2) = create_all hs u1
        in Inr \<lparr>race_id = raceId, horses = [0..<length runningHorses], results = [],
                isStarted = False, turnCount = 0, distance = d, domainEvents = [],
                store = (\<lambda>a. runningHorses ! a)\<rparr>)"

definition Race_reconstitute ::
  "jsstring \<Rightarrow> nat list \<Rightarrow> int \<Rightarrow> nat list \<Rightarrow> bool \<Rightarrow> nat \<Rightarrow> (nat \<Rightarrow> RunningHorse) \<Rightarrow> Race" where
  "Race_reconstitute rid hs d res started tc st =
     \<lparr>race_id = rid, horses = hs, results = [] @ res, isStarted = started, turnCount = tc,
      distance = d, domainEvents = [], store = st\<rparr>"

definition start :: "Race \<Rightarrow> (RaceError + unit) \<times> Race" where
  "start r =
     (if Race_isFinished r then (Inl (RaceAlreadyFinishedError (race_id r)), r)
      else if \<not> isStarted r
        then (Inr (),
              addDomainEvent (RaceStarted (race_id r) (length (horses r)) (distance r))
                (r\<lparr>isStarted := True\<rparr>))
        else (Inr (), r))"

text \<open>\<open>Array.prototype.indexOf\<close>: the first index holding the reference, or \<open>-1\<close>.\<close>

fun indexOf :: "nat list \<Rightarrow> nat \<Rightarrow> int" where
  "indexOf [] a = -1"
| "indexOf (x # xs) a =
     (if x = a then 0 else (let i = indexOf xs a in if i < 0 then -1 else i + 1))"

text \<open>
  The first loop of \<open>turn()\<close>: every horse of the lineup that has not finished runs
  once, and the ones that finish are pushed to \<open>newlyFinished\<close>.
\<close>

fun move_horses :: "int \<Rightarrow> nat list \<Rightarrow> (nat \<Rightarrow> RunningHorse) \<Rightarrow> random \<Rightarrow> nat list
    \<Rightarrow> (nat \<Rightarrow> RunningHorse) \<times> random \<times> nat list" where
  "move_horses len [] st rnd newlyFinished = (st, rnd, newlyFinished)"
| "move_horses len (a # as) st rnd newlyFinished =
     (if \<not> isFinished (st a) then
        let wasFinishedBefore = isFinished (st a);
            (res, h', rnd') = run len rnd (st a);
            st' = st(a := h')
        in move_horses len as st' rnd'
             (if isFinished (st' a) \<and> \<not> wasFinishedBefore then newlyFinished @ [a]
              else newlyFinished)
      else move_horses len as st rnd newlyFinished)"

text \<open>
  The second loop: each newly finished horse is pushed to \<open>_results\<close> and a
  \<open>HorseFinished\<close> event with \<open>place = _results.length\<close> is added.
\<close>

fun record_finished :: "nat list \<Rightarrow> Race \<Rightarrow> Race" where
  "record_finished [] r = r"
| "record_finished (a # as) r =
     (let r1 = r\<lparr>results := results r @ [a]\<rparr>;
          place = length (results r1);
          h = store r1 a
      in record_finished as
           (addDomainEvent (HorseFinished (race_id r1) (rh_id h) (name h) (position h) place) r1))"

definition positions_of :: "Race \<Rightarrow> HorsePosition list" where
  "positions_of r =
     map (\<lambda>a. let h = store r a in
            \<lparr>hp_horseId = rh_id h, hp_horseName = name h, hp_position = position h,
             hp_isFinished = isFinished h\<rparr>) (horses r)"

definition raceResults_of :: "Race \<Rightarrow> RaceResult list" where
  "raceResults_of r =
     map (\<lambda>(index, a). let h = store r a in
            \<lparr>rr_place = index + 1, rr_horseId = rh_id h, rr_horseName = name h,
             rr_finishPosition = position h\<rparr>) (enumerate 0 (results r))"

text \<open>
  \<open>Race.turn()\<close>. The comparator of the sort is \<open>indexOf(a) - indexOf(b)\<close>, a
  consistent order, on which the stable \<open>Array.prototype.sort\<close> is the stable sort by key
  \<open>indexOf\<close>.
\<close>

definition turn :: "random \<Rightarrow> Race \<Rightarrow> (RaceError + unit) \<times> Race \<times> random" where
  "turn rnd r =
     (if \<not> isStarted r then (Inl (RaceNotStartedError (race_id r)), r, rnd)
      else if Race_isFinished r then (Inl (RaceAlreadyFinishedError (race_id r)), r, rnd)
      else
        let r1 = r\<lparr>turnCount := turnCount r + 1\<rparr>;
            (st', rnd', newlyFinished) = move_horses (raceLength r1) (horses r1) (store r1) rnd [];
            r2 = r1\<lparr>store := st'\<rparr>;
            sorted_nf = sort_key (indexOf (horses r2)) newlyFinished;
            r3 = record_finished sorted_nf r2;
            r4 = addDomainEvent (TurnCompleted (race_id r3) (turnCount r3) (positions_of r3)) r3;
            r5 = (if Race_isFinished r4
                  then addDomainEvent (RaceFinished (race_id r4) (raceResults_of r4)) r4
                  else r4)
        in (Inr (), r5, rnd'))"

section \<open>The event bus (application/EventBus.ts)\<close>

text \<open>
  A handler is a function object, compared by reference: it is modelled as its address.
  A JavaScript \<open>Set\<close> iterates in insertion order and ignores the insertion of an
  element it already holds: its content is the list of its elements in that order.
  The \<open>Set\<close> objects of the map \<open>handlers\<close> are objects of their own, which the
  unsubscribe closures capture: the map holds their addresses, \<open>sets\<close> their contents,
  and \<open>new Set()\<close> takes the next address. \<open>allHandlers\<close> is one \<open>Set\<close> for the life of the
  bus.
\<close>

type_synonym EventHandler = nat

definition Set_add :: "'a \<Rightarrow> 'a list \<Rightarrow> 'a list" where
  "Set_add x xs = (if x \<in> set xs then xs else xs @ [x])"

definition Set_delete :: "'a \<Rightarrow> 'a list \<Rightarrow> 'a list" where
  "Set_delete x xs = removeAll x xs"

record EventBus =
  handlers :: "string \<rightharpoonup> nat"
  sets :: "nat \<Rightarrow> EventHandler list"
  nextSet :: nat
  allHandlers :: "EventHandler list"

definition new_EventBus :: EventBus where
  "new_EventBus = \<lparr>handlers = Map.empty, sets = (\<lambda>a. []), nextSet = 0, allHandlers = []\<rparr>"

text \<open>
  The closure \<open>subscribe\<close> returns holds the \<open>Set\<close> it added the handler to, the
  handler and the event type; the one of \<open>subscribeAll\<close> holds the handler.
\<close>

datatype unsubscribe = Unsubscribe nat EventHandler string | UnsubscribeAll EventHandler

definition subscribe :: "string \<Rightarrow> EventHandler \<Rightarrow> EventBus \<Rightarrow> unsubscribe \<times> EventBus" where
  "subscribe t h b =
     (case handlers b t of
        None \<Rightarrow>
          let handlerSet = nextSet b
          in (Unsubscribe handlerSet h t,
              b\<lparr>handlers := (handlers b)(t \<mapsto> handlerSet),
                sets := (sets b)(handlerSet := Set_add h []),
                nextSet := handlerSet + 1\<rparr>)
      | Some handlerSet \<Rightarrow>
          (Unsubscribe handlerSet h t,
           b\<lparr>sets := (sets b)(handlerSet := Set_add h (sets b handlerSet))\<rparr>))"

definition subscribeAll :: "EventHandler \<Rightarrow> EventBus \<Rightarrow> unsubscribe \<times> EventBus" where
  "subscribeAll h b = (UnsubscribeAll h, b\<lparr>allHandlers := Set_add h (allHandlers b)\<rparr>)"

text \<open>Calling a closure that \<open>subscribe\<close> or \<open>subscribeAll\<close> returned.\<close>

fun call_unsubscribe :: "unsubscribe \<Rightarrow> EventBus \<Rightarrow> EventBus" where
  "call_unsubscribe (Unsubscribe handlerSet h t) b =
     (let b1 = b\<lparr>sets := (sets b)(handlerSet := Set_delete h (sets b handlerSet))\<rparr>
      in if length (sets b1 handlerSet) = 0 then b1\<lparr>handlers := (handlers b1)(t := None)\<rparr>
         else b1)"
| "call_unsubscribe (UnsubscribeAll h) b = b\<lparr>allHandlers := Set_delete h (allHandlers b)\<rparr>"

definition clear :: "EventBus \<Rightarrow> EventBus" where
  "clear b = b\<lparr>handlers := Map.empty, allHandlers := []\<rparr>"

definition hasSubscribers :: "string \<Rightarrow> EventBus \<Rightarrow> bool" where
  "hasSubscribers t b \<longleftrightarrow>
     (case handlers b t of Some typeHandlers \<Rightarrow> length (sets b typeHandlers) | None \<Rightarrow> 0) > 0
     \<or> length (allHandlers b) > 0"

text \<open>
  What a handler does is outside the bus. \<open>ok h e\<close> tells whether the awaited call
  \<open>handler(event)\<close> completes; when it throws or rejects, the \<open>await\<close> throws and the
  loop, and with it \<open>publish\<close>, ends there: the result names the handler whose call
  failed. Handlers are taken not to subscribe or unsubscribe while an event is
  dispatched. The calls are recorded in order.
\<close>

type_synonym call_log = "(EventHandler \<times> DomainEvent) list"

fun call_each :: "(EventHandler \<Rightarrow> DomainEvent \<Rightarrow> bool) \<Rightarrow> DomainEvent \<Rightarrow> EventHandler list
    \<Rightarrow> call_log \<Rightarrow> EventHandler option \<times> call_log" where
  "call_each ok e [] calls = (None, calls)"
| "call_each ok e (handler # rest) calls =
     (if ok handler e then call_each ok e rest (calls @ [(handler, e)])
      else (Some handler, calls @ [(handler, e)]))"

definition publish :: "(EventHandler \<Rightarrow> DomainEvent \<Rightarrow> bool) \<Rightarrow> EventBus \<Rightarrow> DomainEvent
    \<Rightarrow> call_log \<Rightarrow> EventHandler option \<times> call_log" where
  "publish ok b e calls =
     (let typeHandlers = handlers b (eventType e);
          (failed, calls1) = (case typeHandlers of
                                Some s \<Rightarrow> call_each ok e (sets b s) calls
                              | None \<Rightarrow> (None, calls))
      in case failed of
           None \<Rightarrow> call_each ok e (allHandlers b) calls1
         | Some h \<Rightarrow> (Some h, calls1))"


section \<open>The race loop (application/commands/StartRaceCommand.ts)\<close>

text \<open>
  The command works on three ports. The state store is the one of
  \<open>presentation/store/gameStore.ts\<close> (\<open>MockGameStateStore\<close> behaves the same); the timer
  is the one of \<open>MockTimer\<close>: ids counted up from \<open>nextId\<close>, and a table from the ids of
  the active timers to their interval; the event publisher is the \<open>EventBus\<close>, as the
  container wires it, with the calls it has made so far. The races of the program are
  distinct objects, held in the list by value; the index is an integer.
\<close>

record System =
  races :: "Race list"
  currentRaceIndex :: int
  running :: bool
  tick :: nat
  intervalId :: "nat option"
  tickIntervalMs :: nat
  nextId :: nat
  timers :: "nat \<rightharpoonup> nat"
  bus :: EventBus
  handlerCalls :: call_log



definition setIsRunning :: "bool \<Rightarrow> System \<Rightarrow> System" where
  "setIsRunning b s = s\<lparr>running := b\<rparr>"




definition Timer_clearInterval :: "nat \<Rightarrow> System \<Rightarrow> System" where
  "Timer_clearInterval i s = s\<lparr>timers := (timers s)(i := None)\<rparr>"


definition clearInterval :: "System \<Rightarrow> System" where
  "clearInterval s =
     (case intervalId s of
        Some i \<Rightarrow> (Timer_clearInterval i s)\<lparr>intervalId := None\<rparr>
      | None \<Rightarrow> s)"

definition stop :: "System \<Rightarrow> System" where
  "stop s = setIsRunning False (clearInterval s)"




section \<open>Validated value objects (shared/Result.ts, domain/value-objects)\<close>

text \<open>
  \<open>combine(results)\<close>: the loop returns the first \<open>Err\<close> it meets, or \<open>Ok\<close> of all the
  values.
\<close>

fun combine_loop :: "('e + 'a) list \<Rightarrow> 'a list \<Rightarrow> 'e + 'a list" where
  "combine_loop [] values = Inr values"
| "combine_loop (result # rest) values =
     (case result of
        Inl e \<Rightarrow> Inl e
      | Inr v \<Rightarrow> combine_loop rest (values @ [v]))"

definition combine :: "('e + 'a) list \<Rightarrow> 'e + 'a list" where
  "combine rs = combine_loop rs []"

text \<open>
  White space as \<open>String.prototype.trim\<close> and the class \<open>\s\<close> of a regular expression
  see it (the same code units: \<open>WhiteSpace\<close> and \<open>LineTerminator\<close>), decimal digits
  (\<open>\d\<close>) and the other character classes of the patterns. The patterns with the flag
  \<open>i\<close> match a letter in either case, and no code unit outside ASCII.
  \<open>toLowerCase\<close> is applied to ASCII strings only.
\<close>

definition isWhiteSpace :: "nat \<Rightarrow> bool" where
  "isWhiteSpace c \<longleftrightarrow>
     c \<in> set [9, 10, 11, 12, 13, 32, 160, 5760, 8232, 8233, 8239, 8287, 12288, 65279]
     \<or> (8192 \<le> c \<and> c \<le> 8202)"

definition isDigit :: "nat \<Rightarrow> bool" where
  "isDigit c \<longleftrightarrow> 48 \<le> c \<and> c \<le> 57"

definition isLower :: "nat \<Rightarrow> bool" where
  "isLower c \<longleftrightarrow> 97 \<le> c \<and> c \<le> 122"

definition isUpper :: "nat \<Rightarrow> bool" where
  "isUpper c \<longleftrightarrow> 65 \<le> c \<and> c \<le> 90"

definition isHexDigit :: "nat \<Rightarrow> bool" where
  "isHexDigit c \<longleftrightarrow> isDigit c \<or> (97 \<le> c \<and> c \<le> 102) \<or> (65 \<le> c \<and> c \<le> 70)"

definition trim :: "jsstring \<Rightarrow> jsstring" where
  "trim s = rev (dropWhile isWhiteSpace (rev (dropWhile isWhiteSpace s)))"

definition toLowerCase :: "jsstring \<Rightarrow> jsstring" where
  "toLowerCase s = map (\<lambda>c. if isUpper c then c + 32 else c) s"

subsection \<open>HorseName\<close>

definition MIN_LENGTH :: nat where
  "MIN_LENGTH = 2"

definition MAX_LENGTH :: nat where
  "MAX_LENGTH = 30"

text \<open>\<open>NAME_PATTERN = /^[a-zA-Z0-9\s\-']+$/\<close>\<close>

definition NAME_PATTERN_test :: "jsstring \<Rightarrow> bool" where
  "NAME_PATTERN_test s \<longleftrightarrow>
     s \<noteq> [] \<and> list_all (\<lambda>c. isLower c \<or> isUpper c \<or> isDigit c \<or> isWhiteSpace c
                              \<or> c = 45 \<or> c = 39) s"

definition HorseName_create :: "jsstring \<Rightarrow> ValidationError + jsstring" where
  "HorseName_create v =
     (let trimmed = trim v in
      if length trimmed < MIN_LENGTH
        then Inl \<lparr>field = ''name'', reason = ''must be at least 2 characters''\<rparr>
      else if length trimmed > MAX_LENGTH
        then Inl \<lparr>field = ''name'', reason = ''must be at most 30 characters''\<rparr>
      else if \<not> NAME_PATTERN_test trimmed
        then Inl \<lparr>field = ''name'',
                  reason = ''can only contain letters, numbers, spaces, hyphens, and apostrophes''\<rparr>
      else Inr trimmed)"

subsection \<open>HorseColor\<close>

text \<open>
  \<open>RGB_REGEX = /^rgb\(\s*(\d{1,3})\s*,\s*(\d{1,3})\s*,\s*(\d{1,3})\s*\)$/i\<close>, matched
  from left to right. A run of digits is followed by white space, a comma or the closing
  parenthesis, so a group matches exactly the whole run, when that has one to three
  digits. The result is the three captured groups.
\<close>

definition expect :: "nat list \<Rightarrow> jsstring \<Rightarrow> jsstring option" where
  "expect cs s = (case s of [] \<Rightarrow> None | c # rest \<Rightarrow> if c \<in> set cs then Some rest else None)"

definition digits_1_3 :: "jsstring \<Rightarrow> (jsstring \<times> jsstring) option" where
  "digits_1_3 s =
     (let ds = takeWhile isDigit s in
      if 1 \<le> length ds \<and> length ds \<le> 3 then Some (ds, dropWhile isDigit s) else None)"

definition RGB_REGEX_match :: "jsstring \<Rightarrow> (jsstring \<times> jsstring \<times> jsstring) option" where
  "RGB_REGEX_match s =
     Option.bind (expect [114, 82] s) (\<lambda>s1.
     Option.bind (expect [103, 71] s1) (\<lambda>s2.
     Option.bind (expect [98, 66] s2) (\<lambda>s3.
     Option.bind (expect [40] s3) (\<lambda>s4.
     Option.bind (digits_1_3 (dropWhile isWhiteSpace s4)) (\<lambda>(r, s5).
     Option.bind (expect [44] (dropWhile isWhiteSpace s5)) (\<lambda>s6.
     Option.bind (digits_1_3 (dropWhile isWhiteSpace s6)) (\<lambda>(g, s7).
     Option.bind (expect [44] (dropWhile isWhiteSpace s7)) (\<lambda>s8.
     Option.bind (digits_1_3 (dropWhile isWhiteSpace s8)) (\<lambda>(b, s9).
     Option.bind (expect [41] (dropWhile isWhiteSpace s9)) (\<lambda>s10.
     if s10 = [] then Some (r, g, b) else None))))))))))"

text \<open>\<open>HEX_REGEX = /^#([0-9a-f]{3}|[0-9a-f]{6})$/i\<close>; the result is the captured group.\<close>

definition HEX_REGEX_match :: "jsstring \<Rightarrow> jsstring option" where
  "HEX_REGEX_match s =
     (case s of
        [] \<Rightarrow> None
      | c # hex \<Rightarrow>
          if c = 35 \<and> (length hex = 3 \<or> length hex = 6) \<and> list_all isHexDigit hex
          then Some hex else None)"

text \<open>\<open>parseInt(s, 10)\<close> on a string of decimal digits.\<close>

definition parseInt :: "jsstring \<Rightarrow> nat" where
  "parseInt s = foldl (\<lambda>n c. 10 * n + (c - 48)) 0 s"

text \<open>\<open>n.toString(16).padStart(2, '0')\<close> for \<open>n \<le> 255\<close>.\<close>

definition hexDigit :: "nat \<Rightarrow> nat" where
  "hexDigit d = (if d < 10 then 48 + d else 87 + d)"

definition toHex2 :: "nat \<Rightarrow> jsstring" where
  "toHex2 n = [hexDigit (n div 16), hexDigit (n mod 16)]"

definition HorseColor_create :: "jsstring \<Rightarrow> ValidationError + jsstring" where
  "HorseColor_create v =
     (let trimmed = trim v in
      case RGB_REGEX_match trimmed of
        Some (r, g, b) \<Rightarrow>
          let rNum = parseInt r; gNum = parseInt g; bNum = parseInt b in
          if rNum > 255 \<or> gNum > 255 \<or> bNum > 255
            then Inl \<lparr>field = ''color'', reason = ''RGB values must be between 0 and 255''\<rparr>
          else Inr (toLowerCase ([35] @ toHex2 rNum @ toHex2 gNum @ toHex2 bNum))
      | None \<Rightarrow>
          (case HEX_REGEX_match trimmed of
             Some hex \<Rightarrow>
               let hex' = (if length hex = 3
                           then [hex ! 0, hex ! 0, hex ! 1, hex ! 1, hex ! 2, hex ! 2]
                           else hex)
               in Inr ([35] @ toLowerCase hex')
           | None \<Rightarrow>
               Inl \<lparr>field = ''color'',
                    reason = ''must be in rgb(r,g,b) or #rrggbb/#rgb format''\<rparr>))"

subsection \<open>Condition\<close>

text \<open>
  A JavaScript number is a real number or one of \<open>NaN\<close>, \<open>Infinity\<close>, \<open>-Infinity\<close>;
  \<open>Number.isInteger\<close> holds of the integers among the real ones.
\<close>

datatype number = Num real | NaN | Infinity | MinusInfinity

fun isInteger :: "number \<Rightarrow> bool" where
  "isInteger (Num x) \<longleftrightarrow> of_int \<lfloor>x\<rfloor> = x"
| "isInteger _ \<longleftrightarrow> False"

fun number_value :: "number \<Rightarrow> real" where
  "number_value (Num x) = x"
| "number_value _ = 0"

definition Condition_create :: "number \<Rightarrow> ValidationError + int" where
  "Condition_create v =
     (if \<not> isInteger v then Inl \<lparr>field = ''condition'', reason = ''must be an integer''\<rparr>
      else if number_value v < 1
        then Inl \<lparr>field = ''condition'', reason = ''must be at least 1''\<rparr>
      else if number_value v > 100
        then Inl \<lparr>field = ''condition'', reason = ''must be at most 100''\<rparr>
      else Inr \<lfloor>number_value v\<rfloor>)"

subsection \<open>Horse\<close>

record HorseProps =
  props_id :: jsstring
  props_name :: jsstring
  props_color :: jsstring
  props_condition :: number

datatype component = NameV (nameV: jsstring) | ColorV (colorV: jsstring) | ConditionV (conditionV: int)

text \<open>
  \<open>isValidUUIDAny\<close> of \<open>shared/types/branded.ts\<close> tests
  \<open>/^[0-9a-f]{8}-[0-9a-f]{4}-[0-9a-f]{4}-[0-9a-f]{4}-[0-9a-f]{12}$/i\<close>: groups of
  hexadecimal digits of the given lengths, with a hyphen between two groups.
  \<open>createIdFactory(brandName, validator)\<close> returns a function that throws on an id
  the validator rejects and returns every other id as it is; \<open>None\<close> stands for the
  exception. \<open>createHorseId\<close> (\<open>domain/value-objects/HorseId.ts\<close>) is
  \<open>createIdFactory('HorseId', isValidUUIDAny)\<close>.
\<close>

fun hex_groups :: "nat list \<Rightarrow> jsstring \<Rightarrow> bool" where
  "hex_groups [] s = False"
| "hex_groups [n] s = (length s = n \<and> list_all isHexDigit s)"
| "hex_groups (n # m # ns) s =
     (length (take n s) = n \<and> list_all isHexDigit (take n s)
      \<and> (case drop n s of [] \<Rightarrow> False | c # rest \<Rightarrow> c = 45 \<and> hex_groups (m # ns) rest))"

definition isValidUUIDAny :: "jsstring \<Rightarrow> bool" where
  "isValidUUIDAny s = hex_groups [8, 4, 4, 4, 12] s"

definition createIdFactory :: "(jsstring \<Rightarrow> bool) option \<Rightarrow> jsstring \<Rightarrow> jsstring option" where
  "createIdFactory validator s =
     (case validator of
        Some v \<Rightarrow> if \<not> v s then None else Some s
      | None \<Rightarrow> Some s)"

definition HorseId_createHorseId :: "jsstring \<Rightarrow> jsstring option" where
  "HorseId_createHorseId = createIdFactory (Some isValidUUIDAny)"

text \<open>
  \<open>Horse.create(props)\<close>. The id factory it calls is a parameter here, so that what is
  shown of \<open>Horse.create\<close> holds for \<open>createHorseId\<close>, which is \<open>HorseId_createHorseId\<close>
  above, and for any other factory. The three results are put in one array, so their
  values are tagged.
\<close>

definition Horse_create :: "(jsstring \<Rightarrow> jsstring option) \<Rightarrow> HorseProps \<Rightarrow> ValidationError + Horse" where
  "Horse_create createHorseId props =
     (case createHorseId (props_id props) of
        None \<Rightarrow> Inl \<lparr>field = ''id'', reason = ''must be a valid UUID''\<rparr>
      | Some i \<Rightarrow>
          let nameResult = map_sum (\<lambda>e. e) NameV (HorseName_create (props_name props));
              colorResult = map_sum (\<lambda>e. e) ColorV (HorseColor_create (props_color props));
              conditionResult = map_sum (\<lambda>e. e) ConditionV (Condition_create (props_condition props));
              combined = combine [nameResult, colorResult, conditionResult]
          in case combined of
               Inl e \<Rightarrow> Inl e
             | Inr values \<Rightarrow>
                 Inr \<lparr>horse_id = i, horse_name = nameV (values ! 0),
                      horse_color = colorV (values ! 1),
                      horse_condition = conditionV (values ! 2)\<rparr>)"

section \<open>Notions used to state the properties\<close>

text \<open>
  The \<open>HorseFinished\<close> events of the horses \<open>xs\<close>, pushed one after the other to
  \<open>results\<close> of length \<open>base\<close>: the places are \<open>base + 1\<close>, \<open>base + 2\<close>, and so on.
\<close>

definition horseFinished_events :: "Race \<Rightarrow> nat \<Rightarrow> nat list \<Rightarrow> DomainEvent list" where
  "horseFinished_events r base xs =
     map (\<lambda>(k, a). HorseFinished (race_id r) (rh_id (store r a)) (name (store r a))
            (position (store r a)) k) (enumerate (base + 1) xs)"

text \<open>
  What a call appended: \<open>newly_finished r r'\<close> is the part of \<open>results\<close>, and
  \<open>emitted r r'\<close> the part of the event buffer, that \<open>r'\<close> has beyond \<open>r\<close>.
\<close>

definition newly_finished :: "Race \<Rightarrow> Race \<Rightarrow> nat list" where
  "newly_finished r r' = drop (length (results r)) (results r')"

definition emitted :: "Race \<Rightarrow> Race \<Rightarrow> DomainEvent list" where
  "emitted r r' = drop (length (domainEvents r)) (domainEvents r')"

text \<open>
  The kinds of events, by their \<open>eventType\<close>.
\<close>

definition is_HorseFinished :: "DomainEvent \<Rightarrow> bool" where
  "is_HorseFinished e \<longleftrightarrow> eventType e = ''HorseFinished''"

definition is_RaceStarted :: "DomainEvent \<Rightarrow> bool" where
  "is_RaceStarted e \<longleftrightarrow> eventType e = ''RaceStarted''"

definition is_RaceFinished :: "DomainEvent \<Rightarrow> bool" where
  "is_RaceFinished e \<longleftrightarrow> eventType e = ''RaceFinished''"

text \<open>
  \<open>n\<close> calls of \<open>start()\<close>, and \<open>n\<close> calls of \<open>turn()\<close>, one after the other on the same
  race, with the results of the calls; \<open>after_turns n rnd r\<close> is the race \<open>r\<close> after
  \<open>start()\<close> and \<open>n\<close> calls of \<open>turn()\<close>.
\<close>

fun start_times :: "nat \<Rightarrow> Race \<Rightarrow> (RaceError + unit) list \<times> Race" where
  "start_times 0 r = ([], r)"
| "start_times (Suc n) r =
     (let (res, r1) = start r; (ress, r2) = start_times n r1 in (res # ress, r2))"

fun turn_times :: "nat \<Rightarrow> random \<Rightarrow> Race \<Rightarrow> (RaceError + unit) list \<times> Race \<times> random" where
  "turn_times 0 rnd r = ([], r, rnd)"
| "turn_times (Suc n) rnd r =
     (let (res, r1, rnd1) = turn rnd r; (ress, r2, rnd2) = turn_times n rnd1 r1
      in (res # ress, r2, rnd2))"

definition after_turns :: "nat \<Rightarrow> random \<Rightarrow> Race \<Rightarrow> Race" where
  "after_turns n rnd r = fst (snd (turn_times n rnd (snd (start r))))"

text \<open>
  The closed form of a one-horse race over 1200 meters after being started and \<open>k < 12\<close>
  turns of 100 meters each, and after the twelfth turn.
\<close>

definition running_state :: "Race \<Rightarrow> nat \<Rightarrow> Race" where
  "running_state r0 k =
     r0\<lparr>isStarted := True, turnCount := k,
        domainEvents := RaceStarted (race_id r0) 1 1200 #
          map (\<lambda>j. TurnCompleted (race_id r0) j
                 [\<lparr>hp_horseId = rh_id (store r0 0), hp_horseName = name (store r0 0),
                   hp_position = 100 * int j, hp_isFinished = False\<rparr>]) [1..<Suc k],
        store := (store r0)(0 := (store r0 0)\<lparr>position := 100 * int k\<rparr>)\<rparr>"

definition finished_state :: "Race \<Rightarrow> Race" where
  "finished_state r0 =
     (running_state r0 11)
       \<lparr>turnCount := 12, results := [0],
        store := (store r0)(0 := (store r0 0)\<lparr>position := 1200, isFinished := True\<rparr>),
        domainEvents := domainEvents (running_state r0 11) @
          [HorseFinished (race_id r0) (rh_id (store r0 0)) (name (store r0 0)) 1200 1,
           TurnCompleted (race_id r0) 12
             [\<lparr>hp_horseId = rh_id (store r0 0), hp_horseName = name (store r0 0),
               hp_position = 1200, hp_isFinished = True\<rparr>],
           RaceFinished (race_id r0)
             [\<lparr>rr_place = 1, rr_horseId = rh_id (store r0 0), rr_horseName = name (store r0 0),
               rr_finishPosition = 1200\<rparr>]]\<rparr>"

text \<open>
  The races that \<open>Race.create\<close> returns and the calls of \<open>start()\<close> and \<open>turn()\<close> lead
  to, whatever the calls return and the random source draws; and the invariant that
  ties \<open>results\<close> to the \<open>isFinished\<close> flags of the lineup.
\<close>

inductive reachable :: "Race \<Rightarrow> bool" where
  created: "Race_create hs d rid u = Inr r \<Longrightarrow> reachable r"
| started: "reachable r \<Longrightarrow> start r = (res, r') \<Longrightarrow> reachable r'"
| turned: "reachable r \<Longrightarrow> turn rnd r = (res, r', rnd') \<Longrightarrow> reachable r'"

definition results_inv :: "Race \<Rightarrow> bool" where
  "results_inv r \<longleftrightarrow>
     distinct (horses r) \<and> distinct (results r)
     \<and> set (results r) = {a \<in> set (horses r). isFinished (store r a)}"

text \<open>Registrations, and the bus they build from a new one.\<close>

datatype registration = Subscribe string EventHandler | SubscribeAll EventHandler

fun register :: "registration \<Rightarrow> EventBus \<Rightarrow> EventBus" where
  "register (Subscribe t h) b = snd (subscribe t h b)"
| "register (SubscribeAll h) b = snd (subscribeAll h b)"

definition bus_of :: "registration list \<Rightarrow> EventBus" where
  "bus_of ops = fold register ops new_EventBus"

text \<open>
  The handlers registered for a type, and for all events, in the order of the
  registration calls; and a list cut down to the first occurrence of each element.
\<close>

fun type_regs :: "string \<Rightarrow> registration list \<Rightarrow> EventHandler list" where
  "type_regs t [] = []"
| "type_regs t (Subscribe t' h # ops) = (if t' = t then h # type_regs t ops else type_regs t ops)"
| "type_regs t (SubscribeAll h # ops) = type_regs t ops"

fun all_regs :: "registration list \<Rightarrow> EventHandler list" where
  "all_regs [] = []"
| "all_regs (Subscribe t' h # ops) = all_regs ops"
| "all_regs (SubscribeAll h # ops) = h # all_regs ops"

definition first_occurrences :: "'a list \<Rightarrow> 'a list" where
  "first_occurrences xs = rev (remdups (rev xs))"

text \<open>
  The handlers the bus holds for an event type, in the iteration order of their \<open>Set\<close>.
\<close>

definition type_handlers :: "EventBus \<Rightarrow> string \<Rightarrow> EventHandler list" where
  "type_handlers b t = (case handlers b t of Some s \<Rightarrow> sets b s | None \<Rightarrow> [])"



text \<open>
  The sets of the map are apart: each has an address that \<open>new Set()\<close> has given
  out, and no two types share one.
\<close>

definition sets_separate :: "EventBus \<Rightarrow> bool" where
  "sets_separate b \<longleftrightarrow>
     (\<forall>t a. handlers b t = Some a \<longrightarrow> a < nextSet b)
     \<and> (\<forall>t t' a. handlers b t = Some a \<longrightarrow> handlers b t' = Some a \<longrightarrow> t = t')"

section \<open>Example inputs\<close>

text \<open>
  A race of two horses of condition 100, both at 1150 of 1200 meters, in its fifth turn;
  the random sources that always draw the double \<open>0.99\<close>, and the double \<open>0.6\<close>; a horse
  of condition 5 at the start; the same lineup at the start, started or
  not; and a race that is finished without having been started.
\<close>

definition demo_horse :: Horse where
  "demo_horse = \<lparr>horse_id = js ''h'', horse_name = js ''Thunder'', horse_color = js ''#ff0000'',
                 horse_condition = 100\<rparr>"

definition demo_store :: "nat \<Rightarrow> RunningHorse" where
  "demo_store = (\<lambda>a. RunningHorse_reconstitute [a] demo_horse 1150 False)"

definition demo_race :: Race where
  "demo_race = Race_reconstitute (js ''race'') [0, 1] 1200 [] True 5 demo_store"

definition draws_099 :: random where
  "draws_099 = (\<lambda>n. round_double (99 / 100))"

definition draws_06 :: random where
  "draws_06 = (\<lambda>n. round_double (6 / 10))"

definition slow_horse :: RunningHorse where
  "slow_horse = RunningHorse_reconstitute (js ''rh'') (demo_horse\<lparr>horse_condition := 5\<rparr>) 0 False"

definition demo_race_after :: Race where
  "demo_race_after = fst (snd (turn draws_099 demo_race))"

definition started_race :: Race where
  "started_race = Race_reconstitute (js ''race'') [0, 1] 1200 [] True 0 demo_store"

definition fresh_race :: Race where
  "fresh_race = Race_reconstitute (js ''race'') [0, 1] 1200 [] False 0 demo_store"

definition unstarted_finished_race :: Race where
  "unstarted_finished_race = Race_reconstitute (js ''race'') [0, 1] 1200 [0, 1] False 0
     (\<lambda>a. RunningHorse_reconstitute [a] demo_horse 1200 True)"

text \<open>
  A bus on which handler 1 is subscribed to \<open>TurnCompleted\<close> and unsubscribed, and
  then handler 2 is subscribed to \<open>TurnCompleted\<close> and handler 3 to all events; the
  same bus after the closure of handler 1 has been called a second time; and a bus on
  which handler 1 is subscribed, the bus is cleared, handlers 2 and 3 are subscribed
  as before and the closure of handler 1 is called.
\<close>

definition bus_with_two_handlers :: EventBus where
  "bus_with_two_handlers =
     (let (unsubscribe1, b1) = subscribe ''TurnCompleted'' 1 new_EventBus;
          b2 = call_unsubscribe unsubscribe1 b1;
          (unsubscribe2, b3) = subscribe ''TurnCompleted'' 2 b2;
          (unsubscribe3, b4) = subscribeAll 3 b3
      in b4)"

definition bus_after_second_call :: EventBus where
  "bus_after_second_call =
     (let (unsubscribe1, b1) = subscribe ''TurnCompleted'' 1 new_EventBus;
          b2 = call_unsubscribe unsubscribe1 b1;
          (unsubscribe2, b3) = subscribe ''TurnCompleted'' 2 b2;
          (unsubscribe3, b4) = subscribeAll 3 b3
      in call_unsubscribe unsubscribe1 b4)"

definition bus_after_clear :: EventBus where
  "bus_after_clear =
     (let (unsubscribe1, b1) = subscribe ''TurnCompleted'' 1 new_EventBus;
          b2 = clear b1;
          (unsubscribe2, b3) = subscribe ''TurnCompleted'' 2 b2;
          (unsubscribe3, b4) = subscribeAll 3 b3
      in call_unsubscribe unsubscribe1 b4)"

text \<open>
  A \<open>TurnCompleted\<close> event, and a bus built by six registrations, one of them a
  repetition.
\<close>

definition turn_event :: DomainEvent where
  "turn_event = TurnCompleted (js ''race'') 1 []"





text \<open>
  A sequence of UUIDs, an id factory that accepts the strings of 36 code units, and
  properties whose name, color and condition are all invalid.
\<close>

definition scenario_uuids :: uuids where
  "scenario_uuids = (\<lambda>n. js ''uuid-'' @ [n])"

definition demo_createHorseId :: "jsstring \<Rightarrow> jsstring option" where
  "demo_createHorseId s = (if length s = 36 then Some s else None)"

definition bad_props :: HorseProps where
  "bad_props = \<lparr>props_id = js ''550e8400-e29b-41d4-a716-446655440000'', props_name = js '' A '',
                 props_color = js ''red'', props_condition = Num 0\<rparr>"

section \<open>Properties of the rounding of doubles\<close>

lemma pow2_powr: "pow2 k = 2 powr of_int k"
  by (simp add: pow2_def powr_int)

lemma pow2_pos [simp]: "0 < pow2 k"
  by (simp add: pow2_powr)

lemma pow2_add: "pow2 (a + b) = pow2 a * pow2 b"
  by (simp add: pow2_powr powr_add)

lemma pow2_mono: "a \<le> b \<Longrightarrow> pow2 a \<le> pow2 b"
  by (simp add: pow2_powr)

lemma pow2_0 [simp]: "pow2 0 = 1"
  by (simp add: pow2_def)

lemma pow2_nonneg [simp]: "0 \<le> pow2 k"
  by (simp add: pow2_powr)

lemma pow2_neq0 [simp]: "pow2 k \<noteq> 0"
  using pow2_pos[of k] by linarith

lemma pow2_53: "pow2 53 = 2 ^ 53"
  by (simp add: pow2_def)

lemma pow2_up: "pow2 (e + 1) = 2 ^ 53 * pow2 (e - 52)"
  using pow2_add[of 53 "e - 52"] by (simp add: pow2_53 add.commute)

lemma pow2_half: "pow2 (e - 53) = pow2 (e - 52) / 2"
proof -
  have "pow2 1 = 2" by (simp add: pow2_def)
  with pow2_add[of 1 "e - 53"] show ?thesis by simp
qed

lemma pow2_down: "pow2 (e - 53) = pow2 e / 2 ^ 53"
  using pow2_add[of 53 "e - 53"] by (simp add: pow2_53)

lemma floor_log_bounds:
  assumes "0 < x"
  shows "pow2 \<lfloor>log 2 x\<rfloor> \<le> x" "x < pow2 (\<lfloor>log 2 x\<rfloor> + 1)"
  using floor_log_eq_powr_iff[of x 2 "\<lfloor>log 2 x\<rfloor>"] assms
  by (simp_all add: pow2_powr)

lemma double_exponent_eq:
  assumes "0 < x" "pow2 k \<le> x" "x < pow2 (k + 1)" "- 1022 \<le> k"
  shows "double_exponent x = k"
proof -
  have "\<lfloor>log 2 x\<rfloor> = k"
    using floor_log_eq_powr_iff[of x 2 k] assms by (simp add: pow2_powr)
  with assms show ?thesis by (simp add: double_exponent_def)
qed

lemma double_exponent_upper: "0 < x \<Longrightarrow> x < pow2 (double_exponent x + 1)"
proof -
  assume x: "0 < x"
  have "pow2 (\<lfloor>log 2 x\<rfloor> + 1) \<le> pow2 (double_exponent x + 1)"
    using x by (intro pow2_mono) (simp add: double_exponent_def)
  with floor_log_bounds(2)[OF x] show ?thesis by simp
qed

lemma double_exponent_lower:
  "0 < x \<Longrightarrow> - 1022 < double_exponent x \<Longrightarrow> pow2 (double_exponent x) \<le> x"
  using floor_log_bounds(1)[of x] by (auto simp: double_exponent_def max_def split: if_splits)

lemma round_half_even_upper: "of_int (round_half_even q) \<le> q + 1 / 2"
proof -
  have "of_int \<lfloor>q\<rfloor> \<le> q" by simp
  then show ?thesis
    unfolding round_half_even_def Let_def by (simp split: if_splits) linarith
qed

lemma round_half_even_nonneg: "0 \<le> q \<Longrightarrow> 0 \<le> round_half_even q"
  by (auto simp: round_half_even_def Let_def)

lemma round_half_even_le_int: "q \<le> of_int n \<Longrightarrow> round_half_even q \<le> n"
proof -
  assume q: "q \<le> of_int n"
  have f: "\<lfloor>q\<rfloor> \<le> n" using q by linarith
  show ?thesis
  proof (cases "\<lfloor>q\<rfloor> = n")
    case True
    then have "q = of_int n" using q by linarith
    then show ?thesis by (simp add: round_half_even_def)
  next
    case False
    with f have "\<lfloor>q\<rfloor> + 1 \<le> n" by simp
    then show ?thesis by (auto simp: round_half_even_def Let_def)
  qed
qed

lemma round_half_even_int [simp]: "round_half_even (of_int n) = n"
  by (simp add: round_half_even_def)

lemma round_double_nonneg: "0 \<le> x \<Longrightarrow> 0 \<le> round_double x"
  by (simp add: round_double_def round_half_even_nonneg divide_nonneg_nonneg)

lemma round_double_error:
  "0 < x \<Longrightarrow> round_double x \<le> x + pow2 (double_exponent x - 53)"
proof -
  assume x: "0 < x"
  let ?u = "pow2 (double_exponent x - 52)"
  have "of_int (round_half_even (x / ?u)) * ?u \<le> (x / ?u + 1 / 2) * ?u"
    by (intro mult_right_mono round_half_even_upper) simp
  also have "\<dots> = x + ?u / 2" by (simp add: field_simps)
  also have "?u / 2 = pow2 (double_exponent x - 53)"
    by (simp add: pow2_half)
  finally show ?thesis using x by (simp add: round_double_def)
qed

lemma round_double_le_pow2:
  assumes "0 < x"
  shows "round_double x \<le> pow2 (double_exponent x + 1)"
proof -
  let ?e = "double_exponent x"
  let ?u = "pow2 (?e - 52)"
  have p: "pow2 (?e + 1) = of_int (2 ^ 53) * ?u"
    by (simp add: pow2_up)
  have "x / ?u \<le> of_int (2 ^ 53)"
    using double_exponent_upper[OF assms] p by (simp add: pos_divide_le_eq)
  then have "round_half_even (x / ?u) \<le> 2 ^ 53" by (rule round_half_even_le_int)
  then have "of_int (round_half_even (x / ?u)) * ?u \<le> of_int (2 ^ 53) * ?u"
    by (intro mult_right_mono) (simp_all only: of_int_le_iff, simp)
  with p assms show ?thesis by (simp add: round_double_def)
qed

lemma double_below_one:
  assumes "is_double r" "0 \<le> r" "r < 1"
  shows "r \<le> 1 - 1 / 2 ^ 53"
proof (cases "r = 0")
  case True
  then show ?thesis by simp
next
  case False
  with assms have pos: "0 < r" by simp
  note rn = False
  let ?e = "double_exponent r"
  let ?u = "pow2 (?e - 52)"
  define n where "n = round_half_even (r / ?u)"
  have e: "?e \<le> - 1"
  proof -
    have "log 2 r < 0" using pos assms(3) by simp
    then have "\<lfloor>log 2 r\<rfloor> \<le> - 1" by linarith
    with pos show ?thesis by (simp add: double_exponent_def)
  qed
  show ?thesis
  proof (cases "?e = - 1")
    case True
    have u: "?u = 1 / 2 ^ 53" using True by (simp add: pow2_def)
    have "of_int n * ?u = r"
      using assms(1) rn by (simp add: is_double_def round_double_def n_def)
    then have r: "r = of_int n / 2 ^ 53" by (simp add: u)
    then have "of_int n < (2 ^ 53 :: real)" using assms(3) by (simp add: field_simps)
    then have "(of_int n :: real) < of_int (2 ^ 53)" by simp
    then have "n < 2 ^ 53" by (simp only: of_int_less_iff)
    then have "n \<le> 2 ^ 53 - 1" by simp
    then have "(of_int n :: real) \<le> of_int (2 ^ 53 - 1)" by (simp only: of_int_le_iff)
    then have "(of_int n :: real) \<le> 2 ^ 53 - 1" by simp
    with r show ?thesis by (simp add: field_simps)
  next
    case False
    with e have "?e + 1 \<le> - 1" by simp
    then have "pow2 (?e + 1) \<le> pow2 (- 1)" by (rule pow2_mono)
    with double_exponent_upper[OF pos] have "r < 1 / 2" by (simp add: pow2_def)
    then show ?thesis by simp
  qed
qed

lemma round_double_eval:
  assumes "0 < x" "pow2 k \<le> x" "x < pow2 (k + 1)" "- 1022 \<le> k"
  shows "round_double x = of_int (round_half_even (x / pow2 (k - 52))) * pow2 (k - 52)"
  using double_exponent_eq[OF assms] assms(1) by (simp add: round_double_def)

lemma double_099: "round_double (99 / 100) = 8917127262193582 / 2 ^ 53"
  by (subst round_double_eval[where k = "- 1"])
     (simp_all add: pow2_def round_half_even_def)

lemma is_double_099: "is_double (8917127262193582 / 2 ^ 53)"
  unfolding is_double_def
  by (subst round_double_eval[where k = "- 1"])
     (simp_all add: pow2_def round_half_even_def)

lemma product_099: "round_double (8917127262193582 / 2 ^ 53 * 100) = 99"
  by (subst round_double_eval[where k = 6])
     (simp_all add: pow2_def round_half_even_def)

lemma movement_099 [simp]: "movement_of (round_double (99 / 100)) 100 = 100"
  unfolding movement_of_def double_099 of_int_numeral product_099 by simp

lemma double_06: "round_double (6 / 10) = 5404319552844595 / 2 ^ 53"
  by (subst round_double_eval[where k = "- 1"])
     (simp_all add: pow2_def round_half_even_def)

lemma is_double_06: "is_double (5404319552844595 / 2 ^ 53)"
  unfolding is_double_def
  by (subst round_double_eval[where k = "- 1"])
     (simp_all add: pow2_def round_half_even_def)

lemma product_06: "round_double (5404319552844595 / 2 ^ 53 * 5) = 3"
  by (subst round_double_eval[where k = 1])
     (simp_all add: pow2_def round_half_even_def)

section \<open>Properties of the Race aggregate\<close>

subsection \<open>indexOf and run\<close>

lemma indexOf_mem: "a \<in> set xs \<Longrightarrow> 0 \<le> indexOf xs a \<and> nat (indexOf xs a) < length xs \<and> xs ! nat (indexOf xs a) = a"
  by (induction xs) (auto simp: Let_def nat_add_distrib)

lemma indexOf_inj: "a \<in> set xs \<Longrightarrow> b \<in> set xs \<Longrightarrow> indexOf xs a = indexOf xs b \<Longrightarrow> a = b"
  by (metis indexOf_mem)

lemma run_unfinished:
  "\<not> isFinished h \<Longrightarrow> run len rnd h =
     (Inr (movement_of (rnd 0) (condition h)),
      (if position h + movement_of (rnd 0) (condition h) \<ge> len
       then h\<lparr>position := len, isFinished := True\<rparr>
       else h\<lparr>position := position h + movement_of (rnd 0) (condition h)\<rparr>),
      shift rnd)"
  by (simp add: run_def Let_def)

subsection \<open>The loops of a turn\<close>

text \<open>
  The first loop leaves the finished horses and the horses outside the lineup as they
  are, and pushes each horse that goes from unfinished to finished exactly once.
\<close>

lemma move_horses_spec:
  "move_horses len as st rnd nf = (st', rnd', nf') \<Longrightarrow>
     \<exists>new. nf' = nf @ new \<and> distinct new
       \<and> set new = {a \<in> set as. \<not> isFinished (st a) \<and> isFinished (st' a)}
       \<and> (\<forall>a. isFinished (st a) \<longrightarrow> st' a = st a)
       \<and> (\<forall>a. a \<notin> set as \<longrightarrow> st' a = st a)"
proof (induction as arbitrary: st rnd nf)
  case Nil
  then show ?case by auto
next
  case (Cons a as)
  show ?case
  proof (cases "isFinished (st a)")
    case True
    with Cons.prems have "move_horses len as st rnd nf = (st', rnd', nf')" by simp
    from Cons.IH[OF this] True show ?thesis by auto
  next
    case False
    obtain res h' rnd1 where run: "run len rnd (st a) = (res, h', rnd1)"
      by (cases "run len rnd (st a)") auto
    let ?st1 = "st(a := h')"
    let ?nf1 = "if isFinished h' then nf @ [a] else nf"
    from Cons.prems False run
    have rec: "move_horses len as ?st1 rnd1 ?nf1 = (st', rnd', nf')"
      by (simp add: Let_def)
    from Cons.IH[OF rec] obtain new where
      n1: "nf' = ?nf1 @ new" and n2: "distinct new"
      and n3: "set new = {b \<in> set as. \<not> isFinished (?st1 b) \<and> isFinished (st' b)}"
      and n4: "\<forall>b. isFinished (?st1 b) \<longrightarrow> st' b = ?st1 b"
      and n5: "\<forall>b. b \<notin> set as \<longrightarrow> st' b = ?st1 b"
      by blast
    show ?thesis
    proof (cases "isFinished h'")
      case True
      have "st' a = h'" using n4 True by simp
      with n1 n2 n3 n4 n5 True False show ?thesis
        by (intro exI[of _ "a # new"]) (auto split: if_splits)
    next
      case f: False
      with n1 n2 n3 n4 n5 False show ?thesis
        by (intro exI[of _ "new"]) (auto split: if_splits)
    qed
  qed
qed

lemma record_finished_eq:
  "record_finished xs r =
     r\<lparr>results := results r @ xs,
       domainEvents := domainEvents r @ horseFinished_events r (length (results r)) xs\<rparr>"
proof (induction xs arbitrary: r)
  case Nil
  then show ?case by (simp add: horseFinished_events_def)
next
  case (Cons a xs)
  show ?case
    by (simp add: Cons.IH Let_def addDomainEvent_def horseFinished_events_def)
qed

subsection \<open>A successful turn\<close>

text \<open>
  The race after a successful \<open>turn()\<close>, field by field, in terms of the race before.
\<close>

lemma turn_success_started:
  "turn rnd r = (Inr (), r', rnd') \<Longrightarrow> isStarted r \<and> \<not> Race_isFinished r"
  by (auto simp: turn_def split: if_splits)

lemma turn_success_shape:
  assumes "turn rnd r = (Inr (), r', rnd')"
  shows "\<exists>st' nf. 
     move_horses (distance r) (horses r) (store r) rnd [] = (st', rnd', nf)
     \<and> r' = (let s = sort_key (indexOf (horses r)) nf;
                 r3 = r\<lparr>turnCount := turnCount r + 1, store := st', results := results r @ s,
                        domainEvents := domainEvents r
                           @ horseFinished_events (r\<lparr>store := st'\<rparr>) (length (results r)) s\<rparr>;
                 r4 = r3\<lparr>domainEvents := domainEvents r3 @ [TurnCompleted (race_id r) (turnCount r + 1) (positions_of r3)]\<rparr>
              in if Race_isFinished r3 then r4\<lparr>domainEvents := domainEvents r4 @ [RaceFinished (race_id r) (raceResults_of r3)]\<rparr> else r4)"
proof -
  from assms have s: "isStarted r" "\<not> Race_isFinished r"
    by (auto simp: turn_def split: if_splits)
  obtain st' rnd1 nf where m: "move_horses (distance r) (horses r) (store r) rnd [] = (st', rnd1, nf)"
    by (cases "move_horses (distance r) (horses r) (store r) rnd []") auto
  from assms s m have "rnd1 = rnd'"
    by (simp add: turn_def Let_def raceLength_def split: if_splits)
  moreover from assms s m have "r' = (let s = sort_key (indexOf (horses r)) nf;
                 r3 = r\<lparr>turnCount := turnCount r + 1, store := st', results := results r @ s,
                        domainEvents := domainEvents r
                           @ horseFinished_events (r\<lparr>store := st'\<rparr>) (length (results r)) s\<rparr>;
                 r4 = r3\<lparr>domainEvents := domainEvents r3 @ [TurnCompleted (race_id r) (turnCount r + 1) (positions_of r3)]\<rparr>
              in if Race_isFinished r3 then r4\<lparr>domainEvents := domainEvents r4 @ [RaceFinished (race_id r) (raceResults_of r3)]\<rparr> else r4)"
    by (simp add: turn_def Let_def raceLength_def record_finished_eq addDomainEvent_def
        Race_isFinished_def positions_of_def raceResults_of_def horseFinished_events_def split: if_splits)
  ultimately show ?thesis using m by blast
qed

lemma positions_of_cong: "store a = store b \<Longrightarrow> horses a = horses b \<Longrightarrow> positions_of a = positions_of b"
  by (simp add: positions_of_def)

lemma raceResults_of_cong: "store a = store b \<Longrightarrow> results a = results b \<Longrightarrow> raceResults_of a = raceResults_of b"
  by (simp add: raceResults_of_def)

lemma horseFinished_events_cong:
  "store a = store b \<Longrightarrow> race_id a = race_id b \<Longrightarrow> horseFinished_events a n xs = horseFinished_events b n xs"
  by (simp add: horseFinished_events_def)

lemma turn_success_facts:
  assumes "turn rnd r = (Inr (), r', rnd')"
  defines "nf \<equiv> newly_finished r r'"
  shows "results r' = results r @ nf"
    and "horses r' = horses r" and "race_id r' = race_id r" and "distance r' = distance r"
    and "isStarted r' = isStarted r" and "turnCount r' = turnCount r + 1"
    and "distinct nf"
    and "set nf = {a \<in> set (horses r). \<not> isFinished (store r a) \<and> isFinished (store r' a)}"
    and "sorted (map (indexOf (horses r)) nf)"
    and "\<forall>a. isFinished (store r a) \<longrightarrow> store r' a = store r a"
    and "domainEvents r' = domainEvents r @ horseFinished_events r' (length (results r)) nf
           @ [TurnCompleted (race_id r) (turnCount r') (positions_of r')]
           @ (if Race_isFinished r' then [RaceFinished (race_id r) (raceResults_of r')] else [])"
proof -
  from turn_success_shape[OF assms(1)] obtain st' nf0 where
    m: "move_horses (distance r) (horses r) (store r) rnd [] = (st', rnd', nf0)"
    and r': "r' = (let s = sort_key (indexOf (horses r)) nf0;
                 r3 = r\<lparr>turnCount := turnCount r + 1, store := st', results := results r @ s,
                        domainEvents := domainEvents r
                           @ horseFinished_events (r\<lparr>store := st'\<rparr>) (length (results r)) s\<rparr>;
                 r4 = r3\<lparr>domainEvents := domainEvents r3 @ [TurnCompleted (race_id r) (turnCount r + 1) (positions_of r3)]\<rparr>
              in if Race_isFinished r3 then r4\<lparr>domainEvents := domainEvents r4 @ [RaceFinished (race_id r) (raceResults_of r3)]\<rparr> else r4)"
    by blast
  let ?s = "sort_key (indexOf (horses r)) nf0"
  from r' have res: "results r' = results r @ ?s" by (simp add: Let_def)
  then have nf: "nf = ?s" by (simp add: nf_def newly_finished_def)
  from r' have st: "store r' = st'" by (simp add: Let_def)
  from move_horses_spec[OF m] have
    d: "distinct nf0" and
    s: "set nf0 = {a \<in> set (horses r). \<not> isFinished (store r a) \<and> isFinished (st' a)}" and
    k: "\<forall>a. isFinished (store r a) \<longrightarrow> st' a = store r a"
    by auto
  show "results r' = results r @ nf" using res nf by simp
  show h: "horses r' = horses r" using r' by (simp add: Let_def)
  show i: "race_id r' = race_id r" using r' by (simp add: Let_def)
  show "distance r' = distance r" using r' by (simp add: Let_def)
  show "isStarted r' = isStarted r" using r' by (simp add: Let_def)
  show tc: "turnCount r' = turnCount r + 1" using r' by (simp add: Let_def)
  show "distinct nf" using d nf by simp
  show "set nf = {a \<in> set (horses r). \<not> isFinished (store r a) \<and> isFinished (store r' a)}"
    using s nf st by simp
  show "sorted (map (indexOf (horses r)) nf)" using nf by simp
  show "\<forall>a. isFinished (store r a) \<longrightarrow> store r' a = store r a" using k st by simp
  have fin: "Race_isFinished r' \<longleftrightarrow> length (results r @ ?s) = length (horses r)"
    using res h by (simp add: Race_isFinished_def)
  have p: "positions_of r' = positions_of (r\<lparr>store := st'\<rparr>)"
    by (rule positions_of_cong) (simp_all add: st h)
  have q: "raceResults_of r' = raceResults_of (r\<lparr>store := st', results := results r @ ?s\<rparr>)"
    by (rule raceResults_of_cong) (simp_all add: st res)
  have e: "horseFinished_events r' (length (results r)) nf
         = horseFinished_events (r\<lparr>store := st'\<rparr>) (length (results r)) ?s"
    unfolding nf by (rule horseFinished_events_cong) (simp_all add: st i)
  show "domainEvents r' = domainEvents r @ horseFinished_events r' (length (results r)) nf
           @ [TurnCompleted (race_id r) (turnCount r') (positions_of r')]
           @ (if Race_isFinished r' then [RaceFinished (race_id r) (raceResults_of r')] else [])"
    unfolding e p q tc fin
    using r' by (simp add: Let_def Race_isFinished_def positions_of_def raceResults_of_def)
qed

subsection \<open>The events of a turn and their order\<close>

lemma shift_const [simp]: "shift (\<lambda>n. c) = (\<lambda>n. c)"
  by (simp add: shift_def)

lemma horseFinished_events_type:
  "\<forall>e \<in> set (horseFinished_events r n xs). eventType e = ''HorseFinished''"
  by (auto simp: horseFinished_events_def)

text \<open>
  C1. Every successful \<open>turn()\<close> appends to the pending event buffer, in this order:
  the \<open>HorseFinished\<close> events of the horses that finished in this turn (possibly none),
  exactly one \<open>TurnCompleted\<close> event, and then a \<open>RaceFinished\<close> event exactly when the
  race was not finished before the call and is finished after it.
\<close>

theorem turn_event_order:
  assumes "turn rnd r = (Inr (), r', rnd')"
  shows "emitted r r' =
           horseFinished_events r' (length (results r)) (newly_finished r r')
           @ [TurnCompleted (race_id r) (turnCount r') (positions_of r')]
           @ (if \<not> Race_isFinished r \<and> Race_isFinished r'
              then [RaceFinished (race_id r) (raceResults_of r')] else [])
       \<and> domainEvents r' = domainEvents r @ emitted r r'
       \<and> (\<forall>e \<in> set (horseFinished_events r' (length (results r)) (newly_finished r r')).
             eventType e = ''HorseFinished'')"
proof -
  have nf: "\<not> Race_isFinished r" using turn_success_started[OF assms] by simp
  show ?thesis
    using turn_success_facts(11)[OF assms] nf
    by (simp add: emitted_def horseFinished_events_type)
qed

lemmas race_eval = turn_def start_def Race_reconstitute_def Race_isFinished_def
  Let_def raceLength_def RunningHorse_reconstitute_def run_def movement_099
  condition_def addDomainEvent_def positions_of_def raceResults_of_def name_def

lemma demo_turn: "turn draws_099 demo_race = (Inr (), demo_race_after, draws_099)"
  by (simp add: demo_race_after_def race_eval demo_race_def draws_099_def)

lemma demo_after_results: "results demo_race_after = [0, 1]"
  by (simp add: demo_race_after_def race_eval demo_race_def draws_099_def demo_store_def demo_horse_def)

lemma demo_after_events:
  "domainEvents demo_race_after =
     [HorseFinished (js ''race'') [0] (js ''Thunder'') 1200 1,
      HorseFinished (js ''race'') [1] (js ''Thunder'') 1200 2,
      TurnCompleted (js ''race'') 6
        [\<lparr>hp_horseId = [0], hp_horseName = js ''Thunder'', hp_position = 1200, hp_isFinished = True\<rparr>,
         \<lparr>hp_horseId = [1], hp_horseName = js ''Thunder'', hp_position = 1200, hp_isFinished = True\<rparr>],
      RaceFinished (js ''race'')
        [\<lparr>rr_place = 1, rr_horseId = [0], rr_horseName = js ''Thunder'', rr_finishPosition = 1200\<rparr>,
         \<lparr>rr_place = 2, rr_horseId = [1], rr_horseName = js ''Thunder'', rr_finishPosition = 1200\<rparr>]]"
  by (simp add: demo_race_after_def race_eval demo_race_def draws_099_def demo_store_def demo_horse_def)

theorem turn_event_order_witness:
  "turn draws_099 demo_race = (Inr (), demo_race_after, draws_099)
   \<and> map eventType (emitted demo_race demo_race_after)
       = [''HorseFinished'', ''HorseFinished'', ''TurnCompleted'', ''RaceFinished'']
   \<and> Race_isFinished demo_race_after"
proof -
  note t = turn_event_order[OF demo_turn]
  have n: "newly_finished demo_race demo_race_after = [0, 1]"
    by (simp add: newly_finished_def demo_after_results demo_race_def Race_reconstitute_def)
  have f: "Race_isFinished demo_race_after"
    by (simp add: Race_isFinished_def demo_after_results turn_success_facts(2)[OF demo_turn])
       (simp add: demo_race_def Race_reconstitute_def)
  from t have "map eventType (emitted demo_race demo_race_after)
       = map eventType (horseFinished_events demo_race_after (length (results demo_race)) [0, 1])
         @ [''TurnCompleted''] @ [''RaceFinished'']"
    using f n by (simp add: turn_success_started[OF demo_turn])
  then show ?thesis
    using demo_turn f by (simp add: horseFinished_events_def)
qed

subsection \<open>The order of the results of a turn\<close>

lemma indexOf_strict:
  assumes "sorted (map (indexOf hs) xs)" "distinct xs" "set xs \<subseteq> set hs"
  shows "sorted_wrt (<) (map (indexOf hs) xs)"
proof -
  have "inj_on (indexOf hs) (set xs)"
    using assms(3) by (meson indexOf_inj inj_onI subsetD)
  with assms(2) have "distinct (map (indexOf hs) xs)" by (simp add: distinct_map)
  with assms(1) show ?thesis by (simp add: strict_sorted_iff)
qed

lemma horseFinished_events_nth:
  "k < length xs \<Longrightarrow> horseFinished_events r n xs ! k =
     HorseFinished (race_id r) (rh_id (store r (xs ! k))) (name (store r (xs ! k)))
       (position (store r (xs ! k))) (n + k + 1)"
  by (simp add: horseFinished_events_def nth_enumerate_eq)

lemma horseFinished_events_length: "length (horseFinished_events r n xs) = length xs"
  by (simp add: horseFinished_events_def)

lemma filter_horseFinished_events:
  "filter is_HorseFinished (horseFinished_events r n xs) = horseFinished_events r n xs"
  by (simp add: horseFinished_events_def is_HorseFinished_def split_def)

text \<open>
  C2. In a successful \<open>turn()\<close> the horses that go from unfinished to finished are
  appended to \<open>results\<close> in strictly increasing lineup index, and the \<open>k\<close>-th
  \<open>HorseFinished\<close> event of the turn is the one of the \<open>k\<close>-th appended horse, with
  \<open>place\<close> its 1-based index in \<open>results\<close>.
\<close>

theorem turn_results_order:
  assumes "turn rnd r = (Inr (), r', rnd')"
  shows "results r' = results r @ newly_finished r r'
       \<and> set (newly_finished r r')
           = {a \<in> set (horses r). \<not> isFinished (store r a) \<and> isFinished (store r' a)}
       \<and> sorted_wrt (<) (map (indexOf (horses r)) (newly_finished r r'))
       \<and> length (filter is_HorseFinished (emitted r r')) = length (newly_finished r r')
       \<and> (\<forall>k < length (newly_finished r r').
             results r' ! (length (results r) + k) = newly_finished r r' ! k
             \<and> filter is_HorseFinished (emitted r r') ! k =
                 HorseFinished (race_id r) (rh_id (store r' (newly_finished r r' ! k)))
                   (name (store r' (newly_finished r r' ! k)))
                   (position (store r' (newly_finished r r' ! k)))
                   (length (results r) + k + 1))"
proof -
  let ?nf = "newly_finished r r'"
  note f = turn_success_facts[OF assms]
  have sub: "set ?nf \<subseteq> set (horses r)" using f(8) by auto
  have strict: "sorted_wrt (<) (map (indexOf (horses r)) ?nf)"
    by (rule indexOf_strict[OF f(9) f(7) sub])
  have em: "emitted r r' = horseFinished_events r' (length (results r)) ?nf
           @ [TurnCompleted (race_id r) (turnCount r') (positions_of r')]
           @ (if Race_isFinished r' then [RaceFinished (race_id r) (raceResults_of r')] else [])"
    using f(11) by (simp add: emitted_def)
  have fl: "filter is_HorseFinished (emitted r r') = horseFinished_events r' (length (results r)) ?nf"
    unfolding em by (simp add: filter_horseFinished_events) (simp add: is_HorseFinished_def)
  have nth: "\<forall>k < length ?nf. results r' ! (length (results r) + k) = ?nf ! k"
    using f(1) by (metis nth_append_length_plus)
  show ?thesis
    using f(1) f(8) strict nth
    by (simp add: fl horseFinished_events_length horseFinished_events_nth f(3))
qed

theorem turn_results_order_witness:
  "turn draws_099 demo_race = (Inr (), demo_race_after, draws_099)
   \<and> results demo_race_after = [0, 1]
   \<and> filter is_HorseFinished (emitted demo_race demo_race_after) ! 1
       = HorseFinished (js ''race'') [1] (js ''Thunder'') 1200 2"
proof -
  have n: "newly_finished demo_race demo_race_after = [0, 1]"
    by (simp add: newly_finished_def demo_after_results demo_race_def Race_reconstitute_def)
  have s: "store demo_race_after (Suc 0) = \<lparr>rh_id = [1], rh_horse = demo_horse, position = 1200, isFinished = True\<rparr>"
    by (simp add: demo_race_after_def race_eval demo_race_def draws_099_def demo_store_def demo_horse_def)
  have i: "race_id demo_race = js ''race''" "results demo_race = []"
    by (simp_all add: demo_race_def Race_reconstitute_def)
  from turn_results_order[OF demo_turn] have
    "filter is_HorseFinished (emitted demo_race demo_race_after) ! 1 =
       HorseFinished (race_id demo_race) (rh_id (store demo_race_after (newly_finished demo_race demo_race_after ! 1)))
         (name (store demo_race_after (newly_finished demo_race demo_race_after ! 1)))
         (position (store demo_race_after (newly_finished demo_race demo_race_after ! 1)))
         (length (results demo_race) + 1 + 1)"
    using n by simp
  then show ?thesis
    using demo_turn demo_after_results by (simp add: n s i name_def demo_horse_def)
qed

subsection \<open>The movement of a horse\<close>

lemma movement_bounds:
  assumes "1 \<le> c" "is_double r" "0 \<le> r" "r < 1"
  shows "1 \<le> movement_of r c \<and> movement_of r c \<le> c"
proof -
  let ?x = "r * of_int c"
  have x0: "0 \<le> ?x" using assms by simp
  have lo: "0 \<le> \<lfloor>round_double ?x\<rfloor>"
    using round_double_nonneg[OF x0] by simp
  have "round_double ?x < of_int c"
  proof (cases "?x = 0")
    case True
    with assms(1) show ?thesis by (simp add: round_double_def)
  next
    case False
    with x0 have pos: "0 < ?x" by linarith
    let ?e = "double_exponent ?x"
    have rle: "r \<le> 1 - 1 / 2 ^ 53" by (rule double_below_one[OF assms(2-4)])
    have cpos: "0 < (of_int c :: real)" using assms(1) by simp
    have xle: "?x \<le> of_int c - of_int c / 2 ^ 53"
    proof -
      have "?x \<le> (1 - 1 / 2 ^ 53) * of_int c"
        using rle cpos by (intro mult_right_mono) simp_all
      then show ?thesis by (simp add: algebra_simps)
    qed
    show ?thesis
    proof (cases "pow2 (?e + 1) < of_int c")
      case True
      with round_double_le_pow2[OF pos] show ?thesis by simp
    next
      case False
      then have big: "of_int c \<le> pow2 (?e + 1)" by simp
      have "- 1022 < ?e"
      proof (rule ccontr)
        assume "\<not> - 1022 < ?e"
        then have "?e + 1 \<le> - 1" by simp
        then have "pow2 (?e + 1) \<le> pow2 (- 1)" by (rule pow2_mono)
        moreover have "pow2 (- 1) = 1 / 2" by (simp add: pow2_def)
        moreover have "(1 :: real) \<le> of_int c" using assms(1) by simp
        ultimately show False using big by linarith
      qed
      then have low: "pow2 ?e \<le> ?x" by (rule double_exponent_lower[OF pos])
      have half: "pow2 (?e - 53) = pow2 ?e / 2 ^ 53"
        by (rule pow2_down)
      have "0 < (of_int c :: real) / 2 ^ 53" using cpos by simp
      with xle have xc: "?x < of_int c" by linarith
      have "pow2 (?e - 53) < of_int c / 2 ^ 53"
        unfolding half using low xc by (simp add: divide_strict_right_mono)
      with round_double_error[OF pos] xle show ?thesis by linarith
    qed
  qed
  then have "\<lfloor>round_double ?x\<rfloor> < c" by (simp add: floor_less_iff)
  with lo show ?thesis by (simp add: movement_of_def)
qed

text \<open>
  C3. For a condition in \<open>[1, 100]\<close> and a draw \<open>r\<close> of the random source, a double in
  \<open>[0, 1)\<close>, \<open>run\<close> on a horse that has not finished succeeds with the value
  \<open>floor (r * condition) + 1\<close>, the product being the rounded one, whatever the race
  length (so also when the position is clamped), and this movement lies between \<open>1\<close> and
  the condition.
\<close>

theorem run_movement:
  assumes "1 \<le> condition h" "condition h \<le> 100"
    "is_double (rnd 0)" "0 \<le> rnd 0" "rnd 0 < 1" "\<not> isFinished h"
  shows "fst (run len rnd h) = Inr (\<lfloor>round_double (rnd 0 * of_int (condition h))\<rfloor> + 1)
       \<and> 1 \<le> \<lfloor>round_double (rnd 0 * of_int (condition h))\<rfloor> + 1
       \<and> \<lfloor>round_double (rnd 0 * of_int (condition h))\<rfloor> + 1 \<le> condition h"
  using movement_bounds[OF assms(1,3,4,5)] assms(6)
  by (simp add: run_unfinished movement_of_def)

theorem run_movement_witness:
  "1 \<le> condition slow_horse \<and> condition slow_horse \<le> 100
   \<and> is_double (draws_06 0) \<and> 0 \<le> draws_06 0 \<and> draws_06 0 < 1 \<and> \<not> isFinished slow_horse
   \<and> fst (run 1200 draws_06 slow_horse) = Inr 4"
proof -
  have c: "condition slow_horse = 5"
    by (simp add: condition_def slow_horse_def RunningHorse_reconstitute_def)
  have d: "draws_06 0 = 5404319552844595 / 2 ^ 53"
    unfolding draws_06_def by (rule double_06)
  have i: "is_double (draws_06 0)"
    unfolding d by (rule is_double_06)
  have h: "1 \<le> condition slow_horse" "condition slow_horse \<le> 100"
    "is_double (draws_06 0)" "0 \<le> draws_06 0" "draws_06 0 < 1" "\<not> isFinished slow_horse"
    using i by (simp_all add: c d) (simp add: slow_horse_def RunningHorse_reconstitute_def)
  from run_movement[where h = slow_horse and rnd = draws_06 and len = 1200, OF h]
  have "fst (run 1200 draws_06 slow_horse) = Inr 4"
    unfolding c d of_int_numeral product_06 by simp
  with h show ?thesis by simp
qed

subsection \<open>A turn on a race that is not started\<close>

text \<open>
  C6. \<open>turn()\<close> on a race that is not started returns \<open>RaceNotStartedError\<close>, also when
  the race is finished (so never \<open>RaceAlreadyFinishedError\<close>), and leaves the whole race,
  with \<open>turnCount\<close>, \<open>results\<close>, every horse and the event buffer, as well as the random
  source, as they were.
\<close>

theorem turn_not_started:
  assumes "\<not> isStarted r"
  shows "turn rnd r = (Inl (RaceNotStartedError (race_id r)), r, rnd)
       \<and> fst (turn rnd r) \<noteq> Inl (RaceAlreadyFinishedError (race_id r))"
  using assms by (simp add: turn_def)

theorem turn_not_started_witness:
  "\<not> isStarted unstarted_finished_race \<and> Race_isFinished unstarted_finished_race
   \<and> turn draws_099 unstarted_finished_race
       = (Inl (RaceNotStartedError (js ''race'')), unstarted_finished_race, draws_099)"
proof -
  have h: "\<not> isStarted unstarted_finished_race"
    by (simp add: unstarted_finished_race_def Race_reconstitute_def)
  have f: "Race_isFinished unstarted_finished_race"
    by (simp add: unstarted_finished_race_def Race_reconstitute_def Race_isFinished_def)
  have i: "race_id unstarted_finished_race = js ''race''"
    by (simp add: unstarted_finished_race_def Race_reconstitute_def)
  from turn_not_started[OF h, of draws_099] h f show ?thesis by (simp add: i)
qed

subsection \<open>Starting a race again\<close>

lemma start_started: "isStarted r \<Longrightarrow> \<not> Race_isFinished r \<Longrightarrow> start r = (Inr (), r)"
  by (simp add: start_def)

lemma start_times_started:
  "isStarted r \<Longrightarrow> \<not> Race_isFinished r \<Longrightarrow> start_times n r = (replicate n (Inr ()), r)"
  by (induction n) (simp_all add: start_started)

text \<open>
  C5, as stated, fails on a race that is already started and not finished: one call of
  \<open>start()\<close> succeeds and the event buffer stays empty, so no \<open>RaceStarted\<close> event is
  emitted.
\<close>

theorem start_started_counterexample:
  "\<not> Race_isFinished started_race
   \<and> start_times 1 started_race = ([Inr ()], started_race)
   \<and> domainEvents started_race = []"
  by (simp add: started_race_def Race_reconstitute_def Race_isFinished_def start_def)

text \<open>
  C5, amended. \<open>n \<ge> 1\<close> calls of \<open>start()\<close> on a race that is neither finished nor yet
  started all succeed, and together they emit exactly one \<open>RaceStarted\<close> event: the race
  after them is the race after the first call.
\<close>

theorem start_idempotent:
  assumes "\<not> isStarted r" "\<not> Race_isFinished r" "1 \<le> n"
  shows "start_times n r =
           (replicate n (Inr ()),
            r\<lparr>isStarted := True,
              domainEvents := domainEvents r
                @ [RaceStarted (race_id r) (length (horses r)) (distance r)]\<rparr>)
       \<and> filter is_RaceStarted (emitted r (snd (start_times n r)))
           = [RaceStarted (race_id r) (length (horses r)) (distance r)]"
proof -
  let ?r1 = "r\<lparr>isStarted := True,
              domainEvents := domainEvents r
                @ [RaceStarted (race_id r) (length (horses r)) (distance r)]\<rparr>"
  obtain m where n: "n = Suc m" using assms(3) by (cases n) auto
  have s: "start r = (Inr (), ?r1)"
    using assms by (simp add: start_def addDomainEvent_def)
  have "isStarted ?r1" "\<not> Race_isFinished ?r1"
    using assms(2) by (simp_all add: Race_isFinished_def)
  then have "start_times m ?r1 = (replicate m (Inr ()), ?r1)"
    by (rule start_times_started)
  with s have "start_times n r = (replicate n (Inr ()), ?r1)"
    by (simp add: n)
  then show ?thesis
    by (simp add: emitted_def is_RaceStarted_def)
qed

theorem start_idempotent_witness:
  "\<not> isStarted fresh_race \<and> \<not> Race_isFinished fresh_race \<and> (1::nat) \<le> 3
   \<and> fst (start_times 3 fresh_race) = [Inr (), Inr (), Inr ()]
   \<and> filter is_RaceStarted (emitted fresh_race (snd (start_times 3 fresh_race)))
       = [RaceStarted (js ''race'') 2 1200]"
proof -
  have h: "\<not> isStarted fresh_race" "\<not> Race_isFinished fresh_race" "(1::nat) \<le> 3"
    by (simp_all add: fresh_race_def Race_reconstitute_def Race_isFinished_def)
  have i: "race_id fresh_race = js ''race''" "horses fresh_race = [0, 1]" "distance fresh_race = 1200"
    by (simp_all add: fresh_race_def Race_reconstitute_def)
  have rep: "replicate 3 (Inr () :: RaceError + unit) = [Inr (), Inr (), Inr ()]"
    by (simp add: numeral_3_eq_3)
  from start_idempotent[OF h] have
    "fst (start_times 3 fresh_race) = [Inr (), Inr (), Inr ()]"
    "filter is_RaceStarted (emitted fresh_race (snd (start_times 3 fresh_race)))
       = [RaceStarted (js ''race'') 2 1200]"
    by (simp_all add: i rep emitted_def is_RaceStarted_def)
  with h show ?thesis by simp
qed

subsection \<open>The race of one horse over twelve turns\<close>

lemma turn_times_add:
  "turn_times (n + m) rnd r =
     (let (a, r1, rnd1) = turn_times n rnd r; (b, r2, rnd2) = turn_times m rnd1 r1
      in (a @ b, r2, rnd2))"
  by (induction n arbitrary: rnd r) (simp_all add: Let_def split_def)

lemma create_one:
  assumes "Race_create [h] d rid u = Inr r0"
  shows "horses r0 = [0]" "results r0 = []" "\<not> isStarted r0" "turnCount r0 = 0"
    "distance r0 = d" "domainEvents r0 = []" "rh_horse (store r0 0) = h"
    "position (store r0 0) = 0" "\<not> isFinished (store r0 0)"
  using assms
  by (auto simp: Race_create_def RunningHorse_create_def Let_def split: option.splits)

lemma running_step:
  assumes "Race_create [h] 1200 rid u = Inr r0" "horse_condition h = 100" "k < 11"
  shows "turn draws_099 (running_state r0 k) = (Inr (), running_state r0 (Suc k), draws_099)"
  using create_one[OF assms(1)] assms(2,3)
  apply (simp add: running_state_def race_eval draws_099_def)
  apply (auto intro!: Race.equality simp: add.commute)
  done

lemma finishing_step:
  assumes "Race_create [h] 1200 rid u = Inr r0" "horse_condition h = 100"
  shows "turn draws_099 (running_state r0 11) = (Inr (), finished_state r0, draws_099)"
  using create_one[OF assms(1)] assms(2)
  by (simp add: running_state_def finished_state_def race_eval draws_099_def)

lemma start_created:
  assumes "Race_create [h] 1200 rid u = Inr r0"
  shows "start r0 = (Inr (), running_state r0 0)"
  using create_one[OF assms(1)]
  apply (simp add: running_state_def start_def Race_isFinished_def addDomainEvent_def)
  apply (auto intro!: Race.equality RunningHorse.equality simp: fun_eq_iff)
  done

lemma running_times:
  assumes "Race_create [h] 1200 rid u = Inr r0" "horse_condition h = 100"
  shows "j + n \<le> 11 \<Longrightarrow>
     turn_times n draws_099 (running_state r0 j)
       = (replicate n (Inr ()), running_state r0 (j + n), draws_099)"
proof (induction n arbitrary: j)
  case 0
  then show ?case by simp
next
  case (Suc n)
  then have "j < 11" "Suc j + n \<le> 11" by simp_all
  from running_step[OF assms this(1)] Suc.IH[OF this(2)]
  show ?case by simp
qed

lemma after_turns_running:
  assumes "Race_create [h] 1200 rid u = Inr r0" "horse_condition h = 100" "k \<le> 11"
  shows "turn_times k draws_099 (snd (start r0)) = (replicate k (Inr ()), running_state r0 k, draws_099)"
  using running_times[OF assms(1,2), of 0 k] assms(3) start_created[OF assms(1)] by simp

lemma after_turns_finished:
  assumes "Race_create [h] 1200 rid u = Inr r0" "horse_condition h = 100"
  shows "turn_times 12 draws_099 (snd (start r0)) = (replicate 12 (Inr ()), finished_state r0, draws_099)"
proof -
  have "turn_times (11 + 1) draws_099 (snd (start r0))
      = (replicate 11 (Inr ()) @ [Inr ()], finished_state r0, draws_099)"
    unfolding turn_times_add
    using after_turns_running[OF assms, of 11] finishing_step[OF assms]
    by simp
  moreover have "replicate 11 (Inr () :: RaceError + unit) @ [Inr ()] = replicate 12 (Inr ())"
    by (simp add: eval_nat_numeral)
  ultimately show ?thesis by simp
qed

lemma filter_turnCompleted:
  "filter is_RaceFinished (map (\<lambda>j. TurnCompleted i j (f j)) xs) = []"
  by (induction xs) (simp_all add: is_RaceFinished_def)

text \<open>
  C7. A race created with one horse of condition 100 over 1200 meters, started, and run
  with every draw equal to the double \<open>0.99\<close>: each of the first twelve turns succeeds, after \<open>k \<le> 12\<close>
  turns the horse is at \<open>100 * k\<close> and \<open>turnCount\<close> is \<open>k\<close>; before the twelfth turn the horse
  has not finished and no \<open>RaceFinished\<close> event exists; after it the horse is finished at
  1200, \<open>results\<close> holds exactly that horse, and there is exactly one \<open>RaceFinished\<close> event,
  with the single entry of place 1.
\<close>

theorem one_horse_scenario:
  assumes "Race_create [h] 1200 rid u = Inr r0" "horse_condition h = 100"
  shows "(\<forall>k \<le> 12. fst (turn_times k draws_099 (snd (start r0))) = replicate k (Inr ())
            \<and> position (store (after_turns k draws_099 r0) 0) = 100 * int k
            \<and> turnCount (after_turns k draws_099 r0) = k)
       \<and> (\<forall>k < 12. \<not> isFinished (store (after_turns k draws_099 r0) 0)
            \<and> results (after_turns k draws_099 r0) = []
            \<and> filter is_RaceFinished (domainEvents (after_turns k draws_099 r0)) = [])
       \<and> isFinished (store (after_turns 12 draws_099 r0) 0)
       \<and> horses (after_turns 12 draws_099 r0) = [0]
       \<and> results (after_turns 12 draws_099 r0) = [0]
       \<and> Race_isFinished (after_turns 12 draws_099 r0)
       \<and> filter is_RaceFinished (domainEvents (after_turns 12 draws_099 r0))
           = [RaceFinished (race_id r0)
                [\<lparr>rr_place = 1, rr_horseId = rh_id (store r0 0), rr_horseName = horse_name h,
                  rr_finishPosition = 1200\<rparr>]]"
proof -
  note c = create_one[OF assms(1)]
  have run: "\<And>k. k \<le> 11 \<Longrightarrow> after_turns k draws_099 r0 = running_state r0 k
               \<and> fst (turn_times k draws_099 (snd (start r0))) = replicate k (Inr ())"
    using after_turns_running[OF assms] by (simp add: after_turns_def)
  have fin: "after_turns 12 draws_099 r0 = finished_state r0"
    "fst (turn_times 12 draws_099 (snd (start r0))) = replicate 12 (Inr ())"
    using after_turns_finished[OF assms] by (simp_all add: after_turns_def)
  have a: "\<forall>k \<le> 12. fst (turn_times k draws_099 (snd (start r0))) = replicate k (Inr ())
            \<and> position (store (after_turns k draws_099 r0) 0) = 100 * int k
            \<and> turnCount (after_turns k draws_099 r0) = k"
  proof (intro allI impI)
    fix k :: nat assume "k \<le> 12"
    then consider "k \<le> 11" | "k = 12" by linarith
    then show "fst (turn_times k draws_099 (snd (start r0))) = replicate k (Inr ())
            \<and> position (store (after_turns k draws_099 r0) 0) = 100 * int k
            \<and> turnCount (after_turns k draws_099 r0) = k"
    proof cases
      case 1
      with run[OF 1] show ?thesis by (simp add: running_state_def)
    next
      case 2
      with fin show ?thesis by (simp add: finished_state_def)
    qed
  qed
  have b: "\<forall>k < 12. \<not> isFinished (store (after_turns k draws_099 r0) 0)
            \<and> results (after_turns k draws_099 r0) = []
            \<and> filter is_RaceFinished (domainEvents (after_turns k draws_099 r0)) = []"
  proof (intro allI impI)
    fix k :: nat assume "k < 12"
    then have "k \<le> 11" by simp
    from run[OF this] c show "\<not> isFinished (store (after_turns k draws_099 r0) 0)
            \<and> results (after_turns k draws_099 r0) = []
            \<and> filter is_RaceFinished (domainEvents (after_turns k draws_099 r0)) = []"
      by (simp add: running_state_def filter_turnCompleted) (simp add: is_RaceFinished_def)
  qed
  have d: "filter is_RaceFinished (domainEvents (finished_state r0))
           = [RaceFinished (race_id r0)
                [\<lparr>rr_place = 1, rr_horseId = rh_id (store r0 0), rr_horseName = horse_name h,
                  rr_finishPosition = 1200\<rparr>]]"
    using c by (simp add: finished_state_def running_state_def filter_turnCompleted name_def)
               (simp add: is_RaceFinished_def)
  show ?thesis
    using a b d c by (simp add: fin finished_state_def running_state_def Race_isFinished_def)
qed

lemma scenario_create:
  "Race_create [demo_horse] 1200 None scenario_uuids
     = Inr (projr (Race_create [demo_horse] 1200 None scenario_uuids))"
  by (simp add: Race_create_def RunningHorse_create_def)

theorem one_horse_scenario_witness:
  "Race_create [demo_horse] 1200 None scenario_uuids
     = Inr (projr (Race_create [demo_horse] 1200 None scenario_uuids))
   \<and> horse_condition demo_horse = 100
   \<and> position (store (after_turns 12 draws_099
        (projr (Race_create [demo_horse] 1200 None scenario_uuids))) 0) = 1200
   \<and> \<not> isFinished (store (after_turns 11 draws_099
        (projr (Race_create [demo_horse] 1200 None scenario_uuids))) 0)
   \<and> isFinished (store (after_turns 12 draws_099
        (projr (Race_create [demo_horse] 1200 None scenario_uuids))) 0)"
proof -
  have c: "horse_condition demo_horse = 100" by (simp add: demo_horse_def)
  note t = one_horse_scenario[OF scenario_create c]
  from t have "position (store (after_turns 12 draws_099
        (projr (Race_create [demo_horse] 1200 None scenario_uuids))) 0) = 100 * int 12"
    by blast
  moreover from t have "\<not> isFinished (store (after_turns 11 draws_099
        (projr (Race_create [demo_horse] 1200 None scenario_uuids))) 0)"
    by simp
  moreover from t have "isFinished (store (after_turns 12 draws_099
        (projr (Race_create [demo_horse] 1200 None scenario_uuids))) 0)"
    by blast
  ultimately show ?thesis using scenario_create c by simp
qed

subsection \<open>The invariants of the reachable races\<close>

lemma create_all_fresh:
  "create_all hs u = (rhs, u') \<Longrightarrow>
     length rhs = length hs \<and> (\<forall>x \<in> set rhs. \<not> isFinished x \<and> position x = 0)"
proof (induction hs arbitrary: u rhs u')
  case Nil
  then show ?case by simp
next
  case (Cons h hs)
  obtain rh u1 where a: "RunningHorse_create h None u = (rh, u1)"
    by (cases "RunningHorse_create h None u") auto
  obtain rest u2 where b: "create_all hs u1 = (rest, u2)"
    by (cases "create_all hs u1") auto
  from a have "\<not> isFinished rh \<and> position rh = 0"
    by (auto simp: RunningHorse_create_def)
  with Cons.prems a b Cons.IH[OF b] show ?case by auto
qed

lemma create_inv:
  assumes "Race_create hs d rid u = Inr r"
  shows "results_inv r"
proof -
  from assms have ne: "length hs \<noteq> 0" by (auto simp: Race_create_def split: if_splits)
  obtain rhs u2 where c: "create_all hs (case rid of Some i \<Rightarrow> u | None \<Rightarrow> shift u) = (rhs, u2)"
    by (cases "create_all hs (case rid of Some i \<Rightarrow> u | None \<Rightarrow> shift u)") auto
  from assms ne c have h: "horses r = [0..<length rhs]" and rs: "results r = []"
    and st: "store r = (\<lambda>a. rhs ! a)"
    by (auto simp: Race_create_def Let_def split: option.splits)
  from create_all_fresh[OF c] have "\<forall>a < length rhs. \<not> isFinished (rhs ! a)"
    by simp
  with h rs st show ?thesis by (auto simp: results_inv_def)
qed

lemma start_inv: "results_inv r \<Longrightarrow> start r = (res, r') \<Longrightarrow> results_inv r'"
  by (auto simp: start_def results_inv_def addDomainEvent_def split: if_splits)

lemma turn_failure_same: "turn rnd r = (Inl e, r', rnd') \<Longrightarrow> r' = r"
  by (auto simp: turn_def Let_def split_def split: if_splits)

lemma turn_inv:
  assumes "results_inv r" "turn rnd r = (res, r', rnd')"
  shows "results_inv r'"
proof (cases res)
  case (Inl e)
  with assms turn_failure_same[of rnd r e r' rnd'] show ?thesis by simp
next
  case (Inr x)
  with assms(2) have t: "turn rnd r = (Inr (), r', rnd')" by simp
  note f = turn_success_facts[OF t]
  let ?nf = "newly_finished r r'"
  from assms(1) have i: "distinct (horses r)" "distinct (results r)"
    "set (results r) = {a \<in> set (horses r). isFinished (store r a)}"
    by (simp_all add: results_inv_def)
  have keep: "\<And>a. isFinished (store r a) \<Longrightarrow> isFinished (store r' a)"
    using f(10) by simp
  have "set (results r) \<inter> set ?nf = {}" using i(3) f(8) by auto
  with i(2) f(7) have "distinct (results r')" by (simp add: f(1))
  moreover have "set (results r') = {a \<in> set (horses r'). isFinished (store r' a)}"
    using i(3) f(8) keep by (auto simp: f(1) f(2))
  ultimately show ?thesis using i(1) by (simp add: results_inv_def f(2))
qed

lemma reachable_inv: "reachable r \<Longrightarrow> results_inv r"
  by (induction rule: reachable.induct) (auto intro: create_inv start_inv turn_inv)

text \<open>
  C4. In every state reachable from \<open>Race.create\<close> by calls of \<open>start()\<close> and \<open>turn()\<close>:
  \<open>results\<close> is no longer than the lineup, the race is finished exactly when the two
  lengths agree, no horse occurs twice in \<open>results\<close>, and every horse in \<open>results\<close> is a
  horse of the lineup whose own \<open>isFinished\<close> flag is set.
\<close>

theorem race_invariants:
  assumes "reachable r"
  shows "length (results r) \<le> length (horses r)
       \<and> (Race_isFinished r \<longleftrightarrow> length (results r) = length (horses r))
       \<and> distinct (results r)
       \<and> (\<forall>a \<in> set (results r). a \<in> set (horses r) \<and> isFinished (store r a))"
proof -
  from reachable_inv[OF assms] have i: "distinct (horses r)" "distinct (results r)"
    "set (results r) = {a \<in> set (horses r). isFinished (store r a)}"
    by (simp_all add: results_inv_def)
  have "card (set (results r)) \<le> card (set (horses r))"
    by (rule card_mono) (use i(3) in auto)
  with i(1,2) have "length (results r) \<le> length (horses r)"
    by (simp add: distinct_card)
  with i show ?thesis by (auto simp: Race_isFinished_def)
qed

theorem race_invariants_witness:
  "reachable (finished_state (projr (Race_create [demo_horse] 1200 None scenario_uuids)))
   \<and> results (finished_state (projr (Race_create [demo_horse] 1200 None scenario_uuids))) = [0]
   \<and> isFinished (store (finished_state (projr (Race_create [demo_horse] 1200 None scenario_uuids))) 0)"
proof -
  let ?r0 = "projr (Race_create [demo_horse] 1200 None scenario_uuids)"
  have c: "horse_condition demo_horse = 100" by (simp add: demo_horse_def)
  have r0: "reachable ?r0" by (rule reachable.created[OF scenario_create])
  have r1: "reachable (running_state ?r0 0)"
    by (rule reachable.started[OF r0 start_created[OF scenario_create]])
  have step: "\<And>k. k < 11 \<Longrightarrow> reachable (running_state ?r0 k) \<Longrightarrow> reachable (running_state ?r0 (Suc k))"
    by (rule reachable.turned[OF _ running_step[OF scenario_create c]])
  have "\<And>k. k \<le> 11 \<Longrightarrow> reachable (running_state ?r0 k)"
  proof -
    fix k :: nat show "k \<le> 11 \<Longrightarrow> reachable (running_state ?r0 k)"
      by (induction k) (auto intro: r1 step)
  qed
  then have "reachable (running_state ?r0 11)" by simp
  then have rf: "reachable (finished_state ?r0)"
    by (rule reachable.turned[OF _ finishing_step[OF scenario_create c]])
  have "results (finished_state ?r0) = [0]" by (simp add: finished_state_def)
  with race_invariants[OF rf] rf show ?thesis by simp
qed

section \<open>Properties of the event bus\<close>









lemma first_occurrences_snoc:
  "first_occurrences (xs @ [x]) = Set_add x (first_occurrences xs)"
  by (simp add: first_occurrences_def Set_add_def)

lemma bus_of_snoc: "bus_of (ops @ [op]) = register op (bus_of ops)"
  by (simp add: bus_of_def)

lemma type_regs_snoc:
  "type_regs t (ops @ [op]) =
     type_regs t ops @ (case op of Subscribe t' h \<Rightarrow> if t' = t then [h] else [] | SubscribeAll h \<Rightarrow> [])"
  by (induction t ops rule: type_regs.induct) (simp_all split: registration.splits)

lemma all_regs_snoc:
  "all_regs (ops @ [op]) =
     all_regs ops @ (case op of Subscribe t' h \<Rightarrow> [] | SubscribeAll h \<Rightarrow> [h])"
  by (induction ops rule: all_regs.induct) (simp_all split: registration.splits)

lemma sets_separate_new: "sets_separate new_EventBus"
  by (simp add: sets_separate_def new_EventBus_def)

lemma sets_separate_register: "sets_separate b \<Longrightarrow> sets_separate (register op b)"
  by (cases op)
     (auto simp: sets_separate_def subscribe_def subscribeAll_def Let_def
        split: option.splits if_splits, fastforce+)

lemma sets_separate_bus_of: "sets_separate (bus_of ops)"
  by (induction ops rule: rev_induct)
     (simp_all add: bus_of_snoc sets_separate_register, simp add: bus_of_def sets_separate_new)

lemma type_handlers_subscribe:
  "sets_separate b \<Longrightarrow> type_handlers (snd (subscribe t' h b)) t =
     (if t' = t then Set_add h (type_handlers b t) else type_handlers b t)"
  by (auto simp: type_handlers_def subscribe_def Let_def sets_separate_def
      split: option.splits)

lemma type_handlers_subscribeAll: "type_handlers (snd (subscribeAll h b)) t = type_handlers b t"
  by (simp add: type_handlers_def subscribeAll_def split: option.splits)

lemma allHandlers_subscribe: "allHandlers (snd (subscribe t h b)) = allHandlers b"
  by (simp add: subscribe_def Let_def split: option.splits)

lemma allHandlers_subscribeAll:
  "allHandlers (snd (subscribeAll h b)) = Set_add h (allHandlers b)"
  by (simp add: subscribeAll_def)

lemma bus_of_registrations:
  "type_handlers (bus_of ops) t = first_occurrences (type_regs t ops)
   \<and> allHandlers (bus_of ops) = first_occurrences (all_regs ops)"
proof (induction ops rule: rev_induct)
  case Nil
  then show ?case
    by (simp add: bus_of_def new_EventBus_def type_handlers_def first_occurrences_def)
next
  case (snoc op ops)
  then show ?case
    by (cases op)
       (simp_all add: bus_of_snoc type_regs_snoc all_regs_snoc first_occurrences_snoc
          type_handlers_subscribe[OF sets_separate_bus_of] type_handlers_subscribeAll
          allHandlers_subscribe allHandlers_subscribeAll)
qed

lemma fresh_unsubscribe:
  "sets_separate b \<Longrightarrow>
     type_handlers (call_unsubscribe (fst (subscribe t h b)) (snd (subscribe t h b))) t'
       = (if t' = t then Set_delete h (type_handlers b t) else type_handlers b t')"
  by (auto simp: type_handlers_def subscribe_def Let_def sets_separate_def Set_add_def
      Set_delete_def split: option.splits)

text \<open>
  C8. \<open>publish(event)\<close> is to call every handler subscribed to \<open>event.eventType\<close>, in
  registration order, before the \<open>subscribeAll\<close> handlers. On the bus where handler 2
  is subscribed to \<open>TurnCompleted\<close> and handler 3 to all events, \<open>publish\<close> calls 2 and
  then 3; once the closure of the earlier, already ended subscription of handler 1 is
  called again, or is called after \<open>clear()\<close>, the entry of the type is deleted from
  the map although its \<open>Set\<close> holds handler 2, and \<open>publish\<close> calls handler 3 only.
\<close>

theorem stale_unsubscribe_drops_handler:
  "publish (\<lambda>h e. True) bus_with_two_handlers turn_event []
     = (None, [(2, turn_event), (3, turn_event)])
   \<and> publish (\<lambda>h e. True) bus_after_second_call turn_event [] = (None, [(3, turn_event)])
   \<and> publish (\<lambda>h e. True) bus_after_clear turn_event [] = (None, [(3, turn_event)])
   \<and> sets bus_after_second_call 1 = [2] \<and> handlers bus_after_second_call ''TurnCompleted'' = None
   \<and> sets bus_after_clear 1 = [2] \<and> handlers bus_after_clear ''TurnCompleted'' = None"
  by (simp add: publish_def bus_with_two_handlers_def bus_after_second_call_def
      bus_after_clear_def turn_event_def new_EventBus_def subscribe_def subscribeAll_def
      clear_def Set_add_def Set_delete_def Let_def)

section \<open>Properties of the race loop\<close>

lemma clear_fields [simp]:
  "currentRaceIndex (setIsRunning False (clearInterval s)) = currentRaceIndex s"
  "races (setIsRunning False (clearInterval s)) = races s"
  "nextId (setIsRunning False (clearInterval s)) = nextId s"
  "\<not> running (setIsRunning False (clearInterval s))"
  by (simp_all add: setIsRunning_def clearInterval_def Timer_clearInterval_def
      split: option.splits)









section \<open>Properties of the value objects\<close>

subsection \<open>The first error of Horse.create\<close>

lemma combine_loop_first_error:
  "combine_loop (map Inr vs @ Inl e # rest) acc = Inl e"
  by (induction vs arbitrary: acc) simp_all

lemma HorseName_create_field: "HorseName_create v = Inl e \<Longrightarrow> field e = ''name''"
  by (auto simp: HorseName_create_def Let_def split: if_splits)

lemma HorseColor_create_field: "HorseColor_create v = Inl e \<Longrightarrow> field e = ''color''"
  by (auto simp: HorseColor_create_def Let_def split: if_splits option.splits)

lemma Condition_create_field: "Condition_create v = Inl e \<Longrightarrow> field e = ''condition''"
  by (auto simp: Condition_create_def split: if_splits)

text \<open>
  C10. \<open>Horse.create\<close> returns the error of the first invalid component in the order
  id, name, color, condition, whatever the later components are, and a horse only when
  all four are valid; \<open>combine\<close> returns the first error of its array. The errors of the
  components carry the fields \<open>id\<close>, \<open>name\<close>, \<open>color\<close> and \<open>condition\<close>.
\<close>

theorem Horse_create_first_error:
  "Horse_create createHorseId props =
     (case createHorseId (props_id props) of
        None \<Rightarrow> Inl \<lparr>field = ''id'', reason = ''must be a valid UUID''\<rparr>
      | Some i \<Rightarrow>
         (case HorseName_create (props_name props) of
            Inl e \<Rightarrow> Inl e
          | Inr n \<Rightarrow>
             (case HorseColor_create (props_color props) of
                Inl e \<Rightarrow> Inl e
              | Inr c \<Rightarrow>
                 (case Condition_create (props_condition props) of
                    Inl e \<Rightarrow> Inl e
                  | Inr k \<Rightarrow> Inr \<lparr>horse_id = i, horse_name = n, horse_color = c,
                                   horse_condition = k\<rparr>))))
   \<and> combine (map Inr vs @ Inl e # rest) = (Inl e :: ValidationError + component list)
   \<and> (\<forall>x. HorseName_create (props_name props) = Inl x \<longrightarrow> field x = ''name'')
   \<and> (\<forall>x. HorseColor_create (props_color props) = Inl x \<longrightarrow> field x = ''color'')
   \<and> (\<forall>x. Condition_create (props_condition props) = Inl x \<longrightarrow> field x = ''condition'')"
proof -
  have a: "Horse_create createHorseId props =
     (case createHorseId (props_id props) of
        None \<Rightarrow> Inl \<lparr>field = ''id'', reason = ''must be a valid UUID''\<rparr>
      | Some i \<Rightarrow>
         (case HorseName_create (props_name props) of
            Inl e \<Rightarrow> Inl e
          | Inr n \<Rightarrow>
             (case HorseColor_create (props_color props) of
                Inl e \<Rightarrow> Inl e
              | Inr c \<Rightarrow>
                 (case Condition_create (props_condition props) of
                    Inl e \<Rightarrow> Inl e
                  | Inr k \<Rightarrow> Inr \<lparr>horse_id = i, horse_name = n, horse_color = c,
                                   horse_condition = k\<rparr>))))"
  proof (cases "createHorseId (props_id props)")
    case None
    then show ?thesis by (simp add: Horse_create_def)
  next
    case (Some i)
    show ?thesis
      by (cases "HorseName_create (props_name props)";
          cases "HorseColor_create (props_color props)";
          cases "Condition_create (props_condition props)")
         (simp_all add: Horse_create_def Some combine_def)
  qed
  have b: "combine (map Inr vs @ Inl e # rest) = (Inl e :: ValidationError + component list)"
    by (simp add: combine_def combine_loop_first_error)
  from a b show ?thesis
    using HorseName_create_field HorseColor_create_field Condition_create_field
    by blast
qed

theorem Horse_create_first_error_witness:
  "HorseName_create (props_name bad_props)
     = Inl \<lparr>field = ''name'', reason = ''must be at least 2 characters''\<rparr>
   \<and> HorseColor_create (props_color bad_props)
     = Inl \<lparr>field = ''color'', reason = ''must be in rgb(r,g,b) or #rrggbb/#rgb format''\<rparr>
   \<and> Condition_create (props_condition bad_props)
     = Inl \<lparr>field = ''condition'', reason = ''must be at least 1''\<rparr>
   \<and> Horse_create demo_createHorseId bad_props
     = Inl \<lparr>field = ''name'', reason = ''must be at least 2 characters''\<rparr>
   \<and> Horse_create (\<lambda>s. None) bad_props
     = Inl \<lparr>field = ''id'', reason = ''must be a valid UUID''\<rparr>"
proof -
  have n: "HorseName_create (props_name bad_props)
     = Inl \<lparr>field = ''name'', reason = ''must be at least 2 characters''\<rparr>"
    by (simp add: bad_props_def HorseName_create_def js_def trim_def isWhiteSpace_def
        MIN_LENGTH_def Let_def)
  have c: "HorseColor_create (props_color bad_props)
     = Inl \<lparr>field = ''color'', reason = ''must be in rgb(r,g,b) or #rrggbb/#rgb format''\<rparr>"
    by (simp add: bad_props_def HorseColor_create_def js_def trim_def isWhiteSpace_def
        RGB_REGEX_match_def HEX_REGEX_match_def expect_def Let_def)
  have k: "Condition_create (props_condition bad_props)
     = Inl \<lparr>field = ''condition'', reason = ''must be at least 1''\<rparr>"
    by (simp add: bad_props_def Condition_create_def)
  have i: "demo_createHorseId (props_id bad_props) = Some (props_id bad_props)"
    by (simp add: bad_props_def demo_createHorseId_def js_def)
  from Horse_create_first_error[of demo_createHorseId bad_props]
  have 1: "Horse_create demo_createHorseId bad_props
     = Inl \<lparr>field = ''name'', reason = ''must be at least 2 characters''\<rparr>"
    by (simp add: i n)
  from Horse_create_first_error[of "\<lambda>s. None" bad_props]
  have 2: "Horse_create (\<lambda>s. None) bad_props
     = Inl \<lparr>field = ''id'', reason = ''must be a valid UUID''\<rparr>"
    by simp
  from n c k 1 2 show ?thesis by (simp only: simp_thms)
qed

subsection \<open>The validators on concrete inputs\<close>

lemmas vo_eval = js_def trim_def isWhiteSpace_def isDigit_def isLower_def isUpper_def isHexDigit_def
  toLowerCase_def MIN_LENGTH_def MAX_LENGTH_def NAME_PATTERN_test_def expect_def digits_1_3_def
  RGB_REGEX_match_def HEX_REGEX_match_def parseInt_def hexDigit_def toHex2_def Let_def

lemma HorseColor_create_examples:
  "HorseColor_create (js '' RGB( 255 , 0,10 ) '') = Inr (js ''#ff000a'')"
  "HorseColor_create (js ''#ABC'') = Inr (js ''#aabbcc'')"
  "HorseColor_create (js ''#a1b2C3'') = Inr (js ''#a1b2c3'')"
  "HorseColor_create (js ''rgb(256,0,0)'')
     = Inl \<lparr>field = ''color'', reason = ''RGB values must be between 0 and 255''\<rparr>"
  "HorseColor_create (js ''rgb(1234,0,0)'')
     = Inl \<lparr>field = ''color'', reason = ''must be in rgb(r,g,b) or #rrggbb/#rgb format''\<rparr>"
  "HorseColor_create (js ''#abcd'')
     = Inl \<lparr>field = ''color'', reason = ''must be in rgb(r,g,b) or #rrggbb/#rgb format''\<rparr>"
  by (simp_all add: HorseColor_create_def vo_eval)

lemma HorseName_create_examples:
  "HorseName_create (js ''  Thunder Bolt '') = Inr (js ''Thunder Bolt'')"
  "HorseName_create (js ''a_b'')
     = Inl \<lparr>field = ''name'',
            reason = ''can only contain letters, numbers, spaces, hyphens, and apostrophes''\<rparr>"
  "HorseName_create (js ''O'' @ [39] @ js ''Brien-2'') = Inr (js ''O'' @ [39] @ js ''Brien-2'')"
  by (simp_all add: HorseName_create_def vo_eval)

lemma Condition_create_examples:
  "Condition_create (Num 50) = Inr 50"
  "Condition_create (Num (3 / 2)) = Inl \<lparr>field = ''condition'', reason = ''must be an integer''\<rparr>"
  "Condition_create (Num 101) = Inl \<lparr>field = ''condition'', reason = ''must be at most 100''\<rparr>"
  "Condition_create NaN = Inl \<lparr>field = ''condition'', reason = ''must be an integer''\<rparr>"
  by (simp_all add: Condition_create_def)

lemma createHorseId_examples:
  "HorseId_createHorseId (js ''550e8400-e29b-41d4-a716-446655440000'')
     = Some (js ''550e8400-e29b-41d4-a716-446655440000'')"
  "HorseId_createHorseId (js ''550E8400-E29B-41D4-A716-44665544000F'')
     = Some (js ''550E8400-E29B-41D4-A716-44665544000F'')"
  "HorseId_createHorseId (js ''550e8400-e29b-41d4-a716-44665544000'') = None"
  "HorseId_createHorseId (js ''550e8400-e29b-41d4-a716_446655440000'') = None"
  "HorseId_createHorseId (js ''horse-1'') = None"
  by (simp_all add: HorseId_createHorseId_def createIdFactory_def isValidUUIDAny_def vo_eval)

lemma Horse_create_examples:
  "Horse_create HorseId_createHorseId bad_props
     = Inl \<lparr>field = ''name'', reason = ''must be at least 2 characters''\<rparr>"
  "Horse_create HorseId_createHorseId (bad_props\<lparr>props_id := js ''horse-1''\<rparr>)
     = Inl \<lparr>field = ''id'', reason = ''must be a valid UUID''\<rparr>"
  "Horse_create HorseId_createHorseId
     \<lparr>props_id = js ''550e8400-e29b-41d4-a716-446655440000'', props_name = js ''Thunder'',
      props_color = js ''#F00'', props_condition = Num 100\<rparr>
     = Inr \<lparr>horse_id = js ''550e8400-e29b-41d4-a716-446655440000'', horse_name = js ''Thunder'',
           horse_color = js ''#ff0000'', horse_condition = 100\<rparr>"
  by (simp_all add: Horse_create_def HorseId_createHorseId_def createIdFactory_def isValidUUIDAny_def
      bad_props_def HorseName_create_def HorseColor_create_def Condition_create_def combine_def
      vo_eval)

end
